theory Spec2Isabelle
  imports Complex_Main
begin

section \<open>JavaScript numbers\<close>

text \<open>
  The blot and its animator compute on JavaScript numbers. A number is modelled as a
  real, or one of the three non-finite values that division by zero and missing
  properties produce. Arithmetic is exact (no rounding, no overflow), and zero has no
  sign: a zero divisor is read as \<open>+0\<close>. The rounding of binary64 arithmetic is modelled
  for \<open>SDFBlot.update\<close>, by \<open>SDFBlot_update_binary64\<close> below. The non-finite values follow IEEE 754:
  \<open>NaN\<close> is absorbing and every comparison with it is false.
\<close>

datatype jsnum = Fin real | PosInf | NegInf | NaN

instantiation jsnum :: "{zero, one, plus, uminus, minus, times, inverse, abs, ord}"
begin

definition zero_jsnum :: jsnum where
  "0 = Fin 0"

definition one_jsnum :: jsnum where
  "1 = Fin 1"

fun plus_jsnum :: "jsnum \<Rightarrow> jsnum \<Rightarrow> jsnum" where
  "NaN + _ = NaN"
| "_ + NaN = NaN"
| "Fin a + Fin b = Fin (a + b)"
| "PosInf + NegInf = NaN"
| "NegInf + PosInf = NaN"
| "PosInf + _ = PosInf"
| "_ + PosInf = PosInf"
| "NegInf + _ = NegInf"
| "_ + NegInf = NegInf"

fun uminus_jsnum :: "jsnum \<Rightarrow> jsnum" where
  "- Fin a = Fin (- a)"
| "- PosInf = NegInf"
| "- NegInf = PosInf"
| "- NaN = NaN"

definition minus_jsnum :: "jsnum \<Rightarrow> jsnum \<Rightarrow> jsnum" where
  "(a::jsnum) - b = a + (- b)"

fun times_jsnum :: "jsnum \<Rightarrow> jsnum \<Rightarrow> jsnum" where
  "NaN * _ = NaN"
| "_ * NaN = NaN"
| "Fin a * Fin b = Fin (a * b)"
| "PosInf * Fin b = (if b = 0 then NaN else if 0 < b then PosInf else NegInf)"
| "NegInf * Fin b = (if b = 0 then NaN else if 0 < b then NegInf else PosInf)"
| "Fin a * PosInf = (if a = 0 then NaN else if 0 < a then PosInf else NegInf)"
| "Fin a * NegInf = (if a = 0 then NaN else if 0 < a then NegInf else PosInf)"
| "PosInf * PosInf = PosInf"
| "PosInf * NegInf = NegInf"
| "NegInf * PosInf = NegInf"
| "NegInf * NegInf = PosInf"

fun divide_jsnum :: "jsnum \<Rightarrow> jsnum \<Rightarrow> jsnum" where
  "divide_jsnum NaN _ = NaN"
| "divide_jsnum _ NaN = NaN"
| "divide_jsnum (Fin a) (Fin b) =
     (if b = 0 then (if a = 0 then NaN else if 0 < a then PosInf else NegInf)
      else Fin (a / b))"
| "divide_jsnum (Fin a) PosInf = Fin 0"
| "divide_jsnum (Fin a) NegInf = Fin 0"
| "divide_jsnum PosInf (Fin b) = (if 0 \<le> b then PosInf else NegInf)"
| "divide_jsnum NegInf (Fin b) = (if 0 \<le> b then NegInf else PosInf)"
| "divide_jsnum PosInf _ = NaN"
| "divide_jsnum NegInf _ = NaN"

fun inverse_jsnum :: "jsnum \<Rightarrow> jsnum" where
  "inverse_jsnum (Fin a) = (if a = 0 then PosInf else Fin (1 / a))"
| "inverse_jsnum PosInf = Fin 0"
| "inverse_jsnum NegInf = Fin 0"
| "inverse_jsnum NaN = NaN"

fun abs_jsnum :: "jsnum \<Rightarrow> jsnum" where
  "\<bar>Fin a\<bar> = Fin \<bar>a\<bar>"
| "\<bar>PosInf\<bar> = PosInf"
| "\<bar>NegInf\<bar> = PosInf"
| "\<bar>NaN\<bar> = NaN"

fun less_jsnum :: "jsnum \<Rightarrow> jsnum \<Rightarrow> bool" where
  "NaN < _ = False"
| "_ < NaN = False"
| "Fin a < Fin b = (a < b)"
| "_ < NegInf = False"
| "NegInf < _ = True"
| "PosInf < _ = False"
| "_ < PosInf = True"

fun less_eq_jsnum :: "jsnum \<Rightarrow> jsnum \<Rightarrow> bool" where
  "NaN \<le> _ = False"
| "_ \<le> NaN = False"
| "Fin a \<le> Fin b = (a \<le> b)"
| "NegInf \<le> _ = True"
| "_ \<le> PosInf = True"
| "PosInf \<le> _ = False"
| "_ \<le> NegInf = False"

instance ..

end

text \<open>The strict equality \<open>===\<close> on numbers: \<open>NaN\<close> is not equal to itself.\<close>

definition strict_eq :: "jsnum \<Rightarrow> jsnum \<Rightarrow> bool" where
  "strict_eq a b = (a \<noteq> NaN \<and> a = b)"

text \<open>A property that may be absent reads as \<open>undefined\<close>, which arithmetic turns into \<open>NaN\<close>.\<close>

fun to_number :: "jsnum option \<Rightarrow> jsnum" where
  "to_number None = NaN"
| "to_number (Some v) = v"

subsection \<open>The Math object\<close>

definition Math_min :: "jsnum \<Rightarrow> jsnum \<Rightarrow> jsnum" where
  "Math_min a b = (if a = NaN \<or> b = NaN then NaN else if b < a then b else a)"

definition Math_max :: "jsnum \<Rightarrow> jsnum \<Rightarrow> jsnum" where
  "Math_max a b = (if a = NaN \<or> b = NaN then NaN else if a < b then b else a)"

definition Math_abs :: "jsnum \<Rightarrow> jsnum" where
  "Math_abs a = \<bar>a\<bar>"

fun Math_sqrt :: "jsnum \<Rightarrow> jsnum" where
  "Math_sqrt (Fin a) = (if a < 0 then NaN else Fin (sqrt a))"
| "Math_sqrt PosInf = PosInf"
| "Math_sqrt NegInf = NaN"
| "Math_sqrt NaN = NaN"

fun Math_sin :: "jsnum \<Rightarrow> jsnum" where
  "Math_sin (Fin a) = Fin (sin a)"
| "Math_sin _ = NaN"

fun Math_cos :: "jsnum \<Rightarrow> jsnum" where
  "Math_cos (Fin a) = Fin (cos a)"
| "Math_cos _ = NaN"

fun Math_floor :: "jsnum \<Rightarrow> jsnum" where
  "Math_floor (Fin a) = Fin (of_int \<lfloor>a\<rfloor>)"
| "Math_floor v = v"

definition Math_PI :: jsnum where
  "Math_PI = Fin pi"

fun Math_atan2 :: "jsnum \<Rightarrow> jsnum \<Rightarrow> jsnum" where
  "Math_atan2 NaN _ = NaN"
| "Math_atan2 _ NaN = NaN"
| "Math_atan2 (Fin y) (Fin x) =
     (if 0 < x then Fin (arctan (y / x))
      else if x < 0 then (if 0 \<le> y then Fin (arctan (y / x) + pi) else Fin (arctan (y / x) - pi))
      else if 0 < y then Fin (pi / 2)
      else if y < 0 then Fin (- pi / 2)
      else Fin 0)"
| "Math_atan2 (Fin y) PosInf = Fin 0"
| "Math_atan2 (Fin y) NegInf = (if 0 \<le> y then Fin pi else Fin (- pi))"
| "Math_atan2 PosInf (Fin x) = Fin (pi / 2)"
| "Math_atan2 NegInf (Fin x) = Fin (- pi / 2)"
| "Math_atan2 PosInf PosInf = Fin (pi / 4)"
| "Math_atan2 PosInf NegInf = Fin (3 * pi / 4)"
| "Math_atan2 NegInf PosInf = Fin (- pi / 4)"
| "Math_atan2 NegInf NegInf = Fin (- 3 * pi / 4)"

text \<open>
  \<open>Math.pow\<close> (and the operator \<open>**\<close>), after the cases of the language definition:
  a \<open>NaN\<close> exponent, a zero exponent, a \<open>NaN\<close> base, infinite and zero bases,
  infinite exponents, then finite operands.
\<close>

definition is_odd_integer :: "real \<Rightarrow> bool" where
  "is_odd_integer e = (e = of_int \<lfloor>e\<rfloor> \<and> odd \<lfloor>e\<rfloor>)"

definition finite_pow :: "real \<Rightarrow> real \<Rightarrow> jsnum" where
  "finite_pow b e =
     (if 0 < b then Fin (b powr e)
      else if e = of_int \<lfloor>e\<rfloor>
        then (if 0 \<le> e then Fin (b ^ nat \<lfloor>e\<rfloor>) else Fin (1 / b ^ nat (- \<lfloor>e\<rfloor>)))
      else NaN)"

fun Math_pow :: "jsnum \<Rightarrow> jsnum \<Rightarrow> jsnum" where
  "Math_pow _ NaN = NaN"
| "Math_pow NaN (Fin e) = (if e = 0 then Fin 1 else NaN)"
| "Math_pow NaN _ = NaN"
| "Math_pow PosInf (Fin e) = (if e = 0 then Fin 1 else if 0 < e then PosInf else Fin 0)"
| "Math_pow PosInf PosInf = PosInf"
| "Math_pow PosInf NegInf = Fin 0"
| "Math_pow NegInf (Fin e) =
     (if e = 0 then Fin 1
      else if 0 < e then (if is_odd_integer e then NegInf else PosInf)
      else Fin 0)"
| "Math_pow NegInf PosInf = PosInf"
| "Math_pow NegInf NegInf = Fin 0"
| "Math_pow (Fin b) PosInf =
     (if 1 < \<bar>b\<bar> then PosInf else if \<bar>b\<bar> = 1 then NaN else Fin 0)"
| "Math_pow (Fin b) NegInf =
     (if 1 < \<bar>b\<bar> then Fin 0 else if \<bar>b\<bar> = 1 then NaN else PosInf)"
| "Math_pow (Fin b) (Fin e) =
     (if e = 0 then Fin 1
      else if b = 0 then (if 0 < e then Fin 0 else PosInf)
      else finite_pow b e)"

section \<open>SDFBlot\<close>

datatype error = TypeError | IndexSizeError

text \<open>
  The instance state of \<open>SDFBlot\<close>. The fields \<open>x\<close> and \<open>y\<close> of the source are
  \<open>blot_x\<close> and \<open>blot_y\<close>; of the canvas, the pixel dimensions are kept. The property
  \<open>breathingIntensity\<close> is not set by the constructor: it is absent until the animator
  writes it.
\<close>

record SDFBlot =
  canvas_width :: nat
  canvas_height :: nat
  blot_x :: jsnum
  blot_y :: jsnum
  targetX :: jsnum
  targetY :: jsnum
  time :: jsnum
  state :: string
  animationSpeed :: jsnum
  morphFactor :: jsnum
  targetMorphFactor :: jsnum
  breathingPhase :: jsnum
  pulsePhase :: jsnum
  wigglePhase :: jsnum
  breathingIntensity :: "jsnum option"

definition SDFBlot_new :: "nat \<Rightarrow> nat \<Rightarrow> jsnum \<Rightarrow> jsnum \<Rightarrow> SDFBlot" where
  "SDFBlot_new width height initialX initialY =
     \<lparr> canvas_width = width, canvas_height = height,
       blot_x = initialX, blot_y = initialY,
       targetX = initialX, targetY = initialY,
       time = Fin 0, state = ''idle'', animationSpeed = Fin 0.02,
       morphFactor = Fin 0, targetMorphFactor = Fin 0,
       breathingPhase = Fin 0, pulsePhase = Fin 0, wigglePhase = Fin 0,
       breathingIntensity = None \<rparr>"

definition sminQuadratic :: "jsnum \<Rightarrow> jsnum \<Rightarrow> jsnum \<Rightarrow> jsnum" where
  "sminQuadratic a b k0 =
     (let k = k0 * Fin 4;
          h = Math_max (k - Math_abs (a - b)) (Fin 0) / k
      in Math_min a b - h * h * k * (Fin 1 / Fin 4))"

definition sminCubic :: "jsnum \<Rightarrow> jsnum \<Rightarrow> jsnum \<Rightarrow> jsnum" where
  "sminCubic a b k0 =
     (let k = k0 * Fin 6;
          h = Math_max (k - Math_abs (a - b)) (Fin 0) / k
      in Math_min a b - h * h * h * k * (Fin 1 / Fin 6))"

definition sminCircular :: "jsnum \<Rightarrow> jsnum \<Rightarrow> jsnum \<Rightarrow> jsnum" where
  "sminCircular a b k0 =
     (let k = k0 * (Fin 1 / (Fin 1 - Math_sqrt (Fin 0.5)));
          h = Math_max (k - Math_abs (a - b)) (Fin 0) / k
      in Math_min a b - k * Fin 0.5 * (Fin 1 + h - Math_sqrt (Fin 1 - h * (h - Fin 2))))"

definition sdCircle :: "jsnum \<Rightarrow> jsnum \<Rightarrow> jsnum \<Rightarrow> jsnum \<Rightarrow> jsnum \<Rightarrow> jsnum" where
  "sdCircle px py cx cy radius =
     (let dx = px - cx; dy = py - cy
      in Math_sqrt (dx * dx + dy * dy) - radius)"

definition sdEllipse :: "jsnum \<Rightarrow> jsnum \<Rightarrow> jsnum \<Rightarrow> jsnum \<Rightarrow> jsnum \<Rightarrow> jsnum \<Rightarrow> jsnum" where
  "sdEllipse px py cx cy rx ry =
     (let dx = Math_abs (px - cx); dy = Math_abs (py - cy);
          a = rx; b = ry;
          x = dx / a; y = dy / b
      in (a * b) * (Math_sqrt (x * x + y * y) - Fin 1) / Math_sqrt (a * a * y * y + b * b * x * x))"

definition createBlotSDF :: "jsnum \<Rightarrow> jsnum \<Rightarrow> jsnum \<Rightarrow> jsnum \<Rightarrow> SDFBlot \<Rightarrow> jsnum" where
  "createBlotSDF px py t mf this =
     (let breathingScale = Fin 1 + Fin 0.1 * Math_sin (t * Fin 2 + breathingPhase this);
          bodyRadius = Fin 25 * breathingScale;
          bodyHeight = Fin 30 * breathingScale;
          mainBody = sdEllipse px py (blot_x this) (blot_y this) bodyRadius bodyHeight;
          blob2X = blot_x this + Fin 15 * Math_cos (t * Fin 1.5);
          blob2Y = blot_y this + Fin 10 * Math_sin (t * Fin 1.2);
          blob2Radius = Fin 18 + Fin 5 * Math_sin (t * Fin 3);
          secondaryBlob = sdCircle px py blob2X blob2Y blob2Radius;
          blob3X = blot_x this - Fin 12 * Math_cos (t * Fin 0.8);
          blob3Y = blot_y this - Fin 8 * Math_sin (t * Fin 1.8);
          blob3Radius = Fin 12 + Fin 3 * Math_cos (t * Fin 2.5);
          tertiaryBlob = sdCircle px py blob3X blob3Y blob3Radius;
          combined1 = sminCubic mainBody secondaryBlob (Fin 15);
          combined2 = sminQuadratic combined1 tertiaryBlob (Fin 12);
          combined3 =
            (if Fin 0 < mf
             then (let menuRadius = Fin 45 + Fin 10 * mf;
                       menuShape = sdCircle px py (blot_x this) (blot_y this) menuRadius
                   in combined2 * (Fin 1 - mf) + menuShape * mf)
             else combined2);
          detailNoise = Fin 2 * Math_sin (px * Fin 0.1 + t) * Math_cos (py * Fin 0.1 + t * Fin 1.3)
      in combined3 + detailNoise * Fin 0.5)"

text \<open>
  A store into the image data, a \<open>Uint8ClampedArray\<close>: the number is clamped to
  \<open>0..255\<close> and rounded to the nearest integer, ties to even; \<open>NaN\<close> is stored as 0.
\<close>

definition round_half_even :: "real \<Rightarrow> int" where
  "round_half_even r =
     (let f = \<lfloor>r\<rfloor>
      in if r - of_int f < 1 / 2 then f
         else if 1 / 2 < r - of_int f then f + 1
         else if even f then f else f + 1)"

fun to_uint8_clamped :: "jsnum \<Rightarrow> nat" where
  "to_uint8_clamped (Fin r) =
     (if r \<le> 0 then 0 else if 255 \<le> r then 255 else nat (round_half_even r))"
| "to_uint8_clamped PosInf = 255"
| "to_uint8_clamped NegInf = 0"
| "to_uint8_clamped NaN = 0"

text \<open>The four bytes (red, green, blue, alpha) that the body of the pixel loop stores.\<close>

definition renderPixel :: "SDFBlot \<Rightarrow> nat \<Rightarrow> nat \<Rightarrow> nat list" where
  "renderPixel this px py =
     (let distance = createBlotSDF (Fin (real px)) (Fin (real py)) (time this) (morphFactor this) this
      in if distance < Fin 0
         then (let intensity = Math_max (Fin 0) (Fin 1 + distance / Fin 20);
                   r = Math_floor (Fin 44 * intensity);
                   g = Math_floor (Fin 24 * intensity);
                   b = Math_floor (Fin 16 * intensity)
               in [to_uint8_clamped r, to_uint8_clamped g, to_uint8_clamped b, 255])
         else [0, 0, 0, 0])"

text \<open>
  \<open>renderBlot\<close> returns the image data it puts on the canvas, row by row.
  \<open>createImageData\<close> raises \<open>IndexSizeError\<close> for an empty canvas.
\<close>

definition renderBlot :: "SDFBlot \<Rightarrow> error + nat list" where
  "renderBlot this =
     (if canvas_width this = 0 \<or> canvas_height this = 0 then Inl IndexSizeError
      else Inr (concat (map (\<lambda>py. concat (map (\<lambda>px. renderPixel this px py)
                                              [0 ..< canvas_width this]))
                            [0 ..< canvas_height this])))"

definition SDFBlot_update :: "jsnum \<Rightarrow> SDFBlot \<Rightarrow> SDFBlot" where
  "SDFBlot_update deltaTime this =
     (let moveSpeed = Fin 0.08; morphSpeed = Fin 0.1
      in this\<lparr> time := time this + deltaTime * animationSpeed this,
               blot_x := blot_x this + (targetX this - blot_x this) * moveSpeed,
               blot_y := blot_y this + (targetY this - blot_y this) * moveSpeed,
               morphFactor := morphFactor this + (targetMorphFactor this - morphFactor this) * morphSpeed,
               breathingPhase := breathingPhase this + deltaTime * Fin 0.001,
               pulsePhase := pulsePhase this + deltaTime * Fin 0.002,
               wigglePhase := wigglePhase this + deltaTime * Fin 0.0015 \<rparr>)"

subsection \<open>The update in binary64 arithmetic\<close>

text \<open>
  A JavaScript number is an IEEE 754 binary64 value, and every arithmetic operation and
  every decimal literal is rounded to the nearest such value, ties to even. \<open>round53 r\<close>
  is the nearest multiple of \<open>2 powr ulp_exp r\<close> to \<open>r\<close>: a significand of 53 bits, and an
  exponent of at least \<open>- 1074\<close> (the subnormal numbers). A rounded magnitude of
  \<open>overflow_bound\<close> or more is the overflow to an infinity. \<open>SDFBlot_update_binary64\<close> is
  \<open>update\<close> with each of its operations and literals rounded.
\<close>

definition ulp_exp :: "real \<Rightarrow> int" where
  "ulp_exp r = max (\<lfloor>log 2 \<bar>r\<bar>\<rfloor> - 52) (- 1074)"

definition round53 :: "real \<Rightarrow> real" where
  "round53 r =
     (if r = 0 then 0
      else (let q = 2 powr of_int (ulp_exp r)
            in of_int (round_half_even (r / q)) * q))"




definition setState :: "string \<Rightarrow> SDFBlot \<Rightarrow> SDFBlot" where
  "setState newState this =
     (let this1 = this\<lparr> state := newState \<rparr>
      in if newState = ''idle'' then this1\<lparr> targetMorphFactor := Fin 0 \<rparr>
         else if newState = ''active'' then this1\<lparr> targetMorphFactor := Fin 0.3 \<rparr>
         else if newState = ''menu-expanded'' then this1\<lparr> targetMorphFactor := Fin 1 \<rparr>
         else this1)"

definition moveTo :: "jsnum \<Rightarrow> jsnum \<Rightarrow> SDFBlot \<Rightarrow> SDFBlot" where
  "moveTo x y this = this\<lparr> targetX := x, targetY := y \<rparr>"

definition isPointInside :: "jsnum \<Rightarrow> jsnum \<Rightarrow> SDFBlot \<Rightarrow> bool" where
  "isPointInside px py this = (createBlotSDF px py (time this) (morphFactor this) this < Fin 0)"

section \<open>BlotAnimator\<close>

subsection \<open>Easing functions\<close>

definition linear_ease :: "jsnum \<Rightarrow> jsnum" where
  "linear_ease t = t"

definition easeInOut :: "jsnum \<Rightarrow> jsnum" where
  "easeInOut t = (if t < Fin 0.5 then Fin 2 * t * t else Fin (- 1) + (Fin 4 - Fin 2 * t) * t)"

definition easeOut :: "jsnum \<Rightarrow> jsnum" where
  "easeOut t = Fin 1 - Math_pow (Fin 1 - t) (Fin 3)"

definition easeIn :: "jsnum \<Rightarrow> jsnum" where
  "easeIn t = t * t * t"

definition elastic :: "jsnum \<Rightarrow> jsnum" where
  "elastic t =
     (if strict_eq t (Fin 0) \<or> strict_eq t (Fin 1) then t
      else (let p = Fin 0.3; s = p / Fin 4
            in Math_pow (Fin 2) (Fin (- 10) * t) * Math_sin ((t - s) * (Fin 2 * Math_PI) / p) + Fin 1))"

text \<open>
  The tables of the constructor, by their own keys (names inherited from the prototype
  of every object, such as \<open>toString\<close>, are outside the model). A missing key reads as
  \<open>undefined\<close>, here \<open>None\<close>.
\<close>

definition easingFunctions :: "string \<Rightarrow> (jsnum \<Rightarrow> jsnum) option" where
  "easingFunctions name =
     (if name = ''linear'' then Some linear_ease
      else if name = ''easeInOut'' then Some easeInOut
      else if name = ''easeOut'' then Some easeOut
      else if name = ''easeIn'' then Some easeIn
      else if name = ''elastic'' then Some elastic
      else None)"

record preset =
  preset_breathingIntensity :: jsnum
  wiggleAmount :: jsnum
  pulseFrequency :: jsnum

definition animationPresets :: "string \<Rightarrow> preset option" where
  "animationPresets name =
     (if name = ''idle''
        then Some \<lparr> preset_breathingIntensity = Fin 0.05, wiggleAmount = Fin 2, pulseFrequency = Fin 0.8 \<rparr>
      else if name = ''active''
        then Some \<lparr> preset_breathingIntensity = Fin 0.08, wiggleAmount = Fin 4, pulseFrequency = Fin 1.2 \<rparr>
      else if name = ''menuExpanded''
        then Some \<lparr> preset_breathingIntensity = Fin 0.03, wiggleAmount = Fin 1, pulseFrequency = Fin 0.6 \<rparr>
      else None)"

subsection \<open>Sequences\<close>

text \<open>
  A sequence object: its \<open>type\<close> with the fields that belong to the type, and the
  fields every type may carry. A field the factory does not set is \<open>None\<close>
  (\<open>continuous\<close>, only ever tested for truth, is \<open>False\<close>; the field is
  \<open>continuous_flag\<close> here). A waypoint is the pair of its \<open>x\<close> and \<open>y\<close>.
\<close>

datatype seq_type =
    move (waypoints: "(jsnum \<times> jsnum) list")
  | morph (fromValue: jsnum) (toValue: jsnum)
  | breathing (intensity: jsnum) (frequency: jsnum)

record sequence =
  stype :: seq_type
  duration :: "jsnum option"
  easing :: "string option"
  startTime :: "jsnum option"
  continuous_flag :: bool

text \<open>\<open>queueAnimation\<close> adds the field \<open>priority\<close>; the queue and the active slot hold such objects.\<close>

record queued = sequence +
  priority :: real

record BlotAnimator =
  blot :: SDFBlot
  animationQueue :: "queued list"
  isAnimating :: bool
  currentSequence :: "queued option"

text \<open>What the animator reads from outside: the viewport size.\<close>

record window =
  innerWidth :: nat
  innerHeight :: nat

definition BlotAnimator_new :: "SDFBlot \<Rightarrow> BlotAnimator" where
  "BlotAnimator_new sdfBlot =
     \<lparr> blot = sdfBlot, animationQueue = [], isAnimating = False, currentSequence = None \<rparr>"

text \<open>A parameter with a default value: the default stands in for \<open>undefined\<close>.\<close>

fun default_to :: "'a \<Rightarrow> 'a option \<Rightarrow> 'a" where
  "default_to d None = d"
| "default_to d (Some v) = v"

text \<open>
  \<open>createMoveSequence\<close>; \<open>rnd\<close> is the value that \<open>Math.random()\<close> returns when the
  detour is built.
\<close>

definition createMoveSequence ::
  "window \<Rightarrow> real \<Rightarrow> jsnum \<Rightarrow> jsnum \<Rightarrow> jsnum \<Rightarrow> jsnum \<Rightarrow> jsnum option \<Rightarrow> BlotAnimator \<Rightarrow> sequence" where
  "createMoveSequence win rnd tX tY avoidX avoidY dur this =
     (let startX = blot_x (blot this);
          startY = blot_y (blot this);
          directDistance = Math_sqrt (Math_pow (tX - startX) (Fin 2) + Math_pow (tY - startY) (Fin 2));
          mouseDistance = Math_sqrt (Math_pow (avoidX - startX) (Fin 2) + Math_pow (avoidY - startY) (Fin 2));
          waypoints0 = [(startX, startY)];
          waypoints1 =
            (if mouseDistance < Fin 100 \<and> Fin 50 < directDistance
             then (let avoidRadius = Fin 120;
                       angle = Math_atan2 (avoidY - startY) (avoidX - startX);
                       perpAngle = angle + (if 0.5 < rnd then Math_PI / Fin 2 else - Math_PI / Fin 2);
                       waypointX = avoidX + Math_cos perpAngle * avoidRadius;
                       waypointY = avoidY + Math_sin perpAngle * avoidRadius;
                       boundedWaypointX =
                         Math_max (Fin 60) (Math_min (Fin (real (innerWidth win)) - Fin 60) waypointX);
                       boundedWaypointY =
                         Math_max (Fin 60) (Math_min (Fin (real (innerHeight win)) - Fin 60) waypointY)
                   in waypoints0 @ [(boundedWaypointX, boundedWaypointY)])
             else waypoints0);
          waypoints2 = waypoints1 @ [(tX, tY)]
      in \<lparr> stype = move waypoints2,
           duration = Some (default_to (Fin 1000) dur),
           easing = Some ''easeInOut'',
           startTime = Some (Fin 0),
           continuous_flag = False \<rparr>)"

definition morphValues :: "string \<Rightarrow> jsnum option" where
  "morphValues name =
     (if name = ''idle'' then Some (Fin 0)
      else if name = ''active'' then Some (Fin 0.3)
      else if name = ''menuExpanded'' then Some (Fin 1)
      else None)"

text \<open>\<open>v || 0\<close> on a number that may be missing: \<open>undefined\<close>, 0 and \<open>NaN\<close> give 0.\<close>

fun or_zero :: "jsnum option \<Rightarrow> jsnum" where
  "or_zero None = Fin 0"
| "or_zero (Some v) = (if v = Fin 0 \<or> v = NaN then Fin 0 else v)"

definition createMorphSequence :: "string \<Rightarrow> string \<Rightarrow> jsnum option \<Rightarrow> sequence" where
  "createMorphSequence fromState toState dur =
     \<lparr> stype = morph (or_zero (morphValues fromState)) (or_zero (morphValues toState)),
       duration = Some (default_to (Fin 800) dur),
       easing = Some ''easeOut'',
       startTime = Some (Fin 0),
       continuous_flag = False \<rparr>"

definition createBreathingSequence :: "jsnum option \<Rightarrow> jsnum option \<Rightarrow> sequence" where
  "createBreathingSequence intens freq =
     \<lparr> stype = breathing (default_to (Fin 0.05) intens) (default_to (Fin 0.8) freq),
       duration = None,
       easing = None,
       startTime = None,
       continuous_flag = True \<rparr>"

subsection \<open>The queue\<close>

text \<open>
  \<open>playNextAnimation\<close>; \<open>now\<close> is the value of \<open>Date.now()\<close>, in milliseconds, at the
  call.
\<close>

definition playNextAnimation :: "nat \<Rightarrow> BlotAnimator \<Rightarrow> BlotAnimator" where
  "playNextAnimation now this =
     (case animationQueue this of
        [] \<Rightarrow> this\<lparr> isAnimating := False \<rparr>
      | s # rest \<Rightarrow>
          this\<lparr> animationQueue := rest,
                currentSequence := Some (s\<lparr> startTime := Some (Fin (real now)) \<rparr>),
                isAnimating := True \<rparr>)"

text \<open>
  \<open>queueAnimation\<close>. The assignment \<open>sequence.priority = priority\<close> makes the queued
  object \<open>with_priority\<close>. The sort of an array is stable, and its comparator
  \<open>b.priority - a.priority\<close> orders by descending priority: it is the stable insertion
  sort on the key \<open>- priority\<close>.
\<close>

definition with_priority :: "sequence \<Rightarrow> real \<Rightarrow> queued" where
  "with_priority s p =
     \<lparr> stype = stype s, duration = duration s, easing = easing s, startTime = startTime s,
       continuous_flag = continuous_flag s, priority = p \<rparr>"

definition queueAnimation :: "sequence \<Rightarrow> real option \<Rightarrow> nat \<Rightarrow> BlotAnimator \<Rightarrow> BlotAnimator" where
  "queueAnimation s prio now this =
     (let q = with_priority s (default_to 0 prio);
          this1 = this\<lparr> animationQueue := sort_key (\<lambda>a. - priority a) (animationQueue this @ [q]) \<rparr>
      in if \<not> isAnimating this1 then playNextAnimation now this1 else this1)"

subsection \<open>The frame update\<close>

text \<open>An array read \<open>xs[i]\<close> at a number: \<open>undefined\<close> unless \<open>i\<close> is an index of \<open>xs\<close>.\<close>

fun js_index :: "'a list \<Rightarrow> jsnum \<Rightarrow> 'a option" where
  "js_index xs (Fin r) =
     (if r = of_int \<lfloor>r\<rfloor> \<and> 0 \<le> r \<and> nat \<lfloor>r\<rfloor> < length xs then Some (xs ! nat \<lfloor>r\<rfloor>) else None)"
| "js_index xs _ = None"

definition updateMoveAnimation :: "jsnum \<Rightarrow> BlotAnimator \<Rightarrow> error + BlotAnimator" where
  "updateMoveAnimation progress this =
     (case currentSequence this of
        None \<Rightarrow> Inl TypeError
      | Some cs \<Rightarrow>
         (case stype cs of
            move wps \<Rightarrow>
              if length wps < 2 then Inr this
              else (let segmentCount = Fin (real (length wps) - 1);
                        segmentProgress = progress * segmentCount;
                        segmentIndex = Math_floor segmentProgress;
                        localProgress = segmentProgress - segmentIndex
                    in if segmentCount \<le> segmentIndex
                       then (let final = last wps
                             in Inr (this\<lparr> blot := moveTo (fst final) (snd final) (blot this) \<rparr>))
                       else (case (js_index wps segmentIndex, js_index wps (segmentIndex + Fin 1)) of
                               (Some current, Some next) \<Rightarrow>
                                 (let x = fst current + (fst next - fst current) * localProgress;
                                      y = snd current + (snd next - snd current) * localProgress
                                  in Inr (this\<lparr> blot := moveTo x y (blot this) \<rparr>))
                             | _ \<Rightarrow> Inl TypeError))
          | _ \<Rightarrow> Inl TypeError))"

definition updateMorphAnimation :: "jsnum \<Rightarrow> BlotAnimator \<Rightarrow> error + BlotAnimator" where
  "updateMorphAnimation progress this =
     (case currentSequence this of
        None \<Rightarrow> Inl TypeError
      | Some cs \<Rightarrow>
         (let from = (case stype cs of morph f t \<Rightarrow> f | _ \<Rightarrow> NaN);
              to = (case stype cs of morph f t \<Rightarrow> t | _ \<Rightarrow> NaN);
              morphValue = from + (to - from) * progress
          in Inr (this\<lparr> blot := (blot this)\<lparr> morphFactor := morphValue \<rparr> \<rparr>)))"

definition updateBreathingAnimation :: "jsnum \<Rightarrow> BlotAnimator \<Rightarrow> error + BlotAnimator" where
  "updateBreathingAnimation deltaTime this =
     (case currentSequence this of
        None \<Rightarrow> Inl TypeError
      | Some cs \<Rightarrow>
         (let intens = (case stype cs of breathing i f \<Rightarrow> Some i | _ \<Rightarrow> None)
          in Inr (this\<lparr> blot := (blot this)\<lparr> breathingIntensity := intens \<rparr> \<rparr>)))"

text \<open>
  \<open>update\<close>; \<open>now\<close> is the value of \<open>Date.now()\<close> when the elapsed time is computed,
  and \<open>now'\<close> its value when the next sequence is started, later in the same call.
\<close>

definition update :: "jsnum \<Rightarrow> nat \<Rightarrow> nat \<Rightarrow> BlotAnimator \<Rightarrow> error + BlotAnimator" where
  "update deltaTime now now' this =
     (case currentSequence this of
        None \<Rightarrow> Inr this
      | Some cs \<Rightarrow>
         (let elapsed = Fin (real now) - to_number (startTime cs);
              progress = Math_min (elapsed / to_number (duration cs)) (Fin 1);
              name = (case easing cs of None \<Rightarrow> ''linear'' | Some e \<Rightarrow> if e = [] then ''linear'' else e)
          in case easingFunctions name of
               None \<Rightarrow> Inl TypeError
             | Some ease \<Rightarrow>
                (let easedProgress = ease progress;
                     dispatched =
                       (case stype cs of
                          move wps \<Rightarrow> updateMoveAnimation easedProgress this
                        | morph f t \<Rightarrow> updateMorphAnimation easedProgress this
                        | breathing i f \<Rightarrow> updateBreathingAnimation deltaTime this)
                 in case dispatched of
                      Inl e \<Rightarrow> Inl e
                    | Inr this1 \<Rightarrow>
                        if Fin 1 \<le> progress \<and> \<not> continuous_flag cs
                        then Inr (playNextAnimation now' (this1\<lparr> currentSequence := None \<rparr>))
                        else Inr this1)))"

text \<open>
  \<open>transitionToState\<close>; a target coordinate that is \<open>null\<close> is \<open>None\<close>. At most the
  first of the three calls of \<open>queueAnimation\<close> starts a sequence, so one clock value
  serves the call.
\<close>

definition transitionToState ::
  "window \<Rightarrow> real \<Rightarrow> nat \<Rightarrow> string \<Rightarrow> jsnum option \<Rightarrow> jsnum option \<Rightarrow> jsnum \<Rightarrow> jsnum \<Rightarrow> BlotAnimator \<Rightarrow> BlotAnimator" where
  "transitionToState win rnd now newState tX tY avoidX avoidY this =
     (let currentState = state (blot this);
          morphSeq = createMorphSequence currentState newState (Some (Fin 600));
          this1 = queueAnimation morphSeq (Some 10) now this;
          this2 =
            (case (tX, tY) of
               (Some targX, Some targY) \<Rightarrow>
                 (let moveSeq = createMoveSequence win rnd targX targY avoidX avoidY (Some (Fin 800)) this1
                  in queueAnimation moveSeq (Some 9) now this1)
             | _ \<Rightarrow> this1);
          this3 = this2\<lparr> blot := setState newState (blot this2) \<rparr>
      in case animationPresets newState of
           Some p \<Rightarrow>
             (let breathingSeq =
                    createBreathingSequence (Some (preset_breathingIntensity p)) (Some (pulseFrequency p))
              in queueAnimation breathingSeq (Some 1) now this3)
         | None \<Rightarrow> this3)"

definition emergencyStop :: "BlotAnimator \<Rightarrow> BlotAnimator" where
  "emergencyStop this = this\<lparr> animationQueue := [], currentSequence := None, isAnimating := False \<rparr>"

definition isMoving :: "BlotAnimator \<Rightarrow> bool" where
  "isMoving this =
     (case currentSequence this of
        None \<Rightarrow> False
      | Some cs \<Rightarrow> (case stype cs of move wps \<Rightarrow> True | _ \<Rightarrow> False))"

section \<open>Call sequences\<close>

text \<open>The calls that a client makes on a blot, one after the other.\<close>

datatype blot_call = SetState string | Update jsnum

fun blot_calls :: "blot_call list \<Rightarrow> SDFBlot \<Rightarrow> SDFBlot" where
  "blot_calls [] this = this"
| "blot_calls (SetState newState # calls) this = blot_calls calls (setState newState this)"
| "blot_calls (Update deltaTime # calls) this = blot_calls calls (SDFBlot_update deltaTime this)"

text \<open>
  The calls on an animator. A call of \<open>update\<close> carries its \<open>deltaTime\<close> and the two
  clock values it reads, a call of \<open>queueAnimation\<close> its arguments and the clock value.
  The first call that throws ends the run.
\<close>

datatype animator_call =
    CallUpdate jsnum nat nat
  | CallQueueAnimation sequence "real option" nat

fun animator_calls :: "animator_call list \<Rightarrow> BlotAnimator \<Rightarrow> error + BlotAnimator" where
  "animator_calls [] this = Inr this"
| "animator_calls (CallUpdate deltaTime now now' # calls) this =
     (case update deltaTime now now' this of
        Inl e \<Rightarrow> Inl e
      | Inr this1 \<Rightarrow> animator_calls calls this1)"
| "animator_calls (CallQueueAnimation s prio now # calls) this =
     animator_calls calls (queueAnimation s prio now this)"

text \<open>
  One frame of the driver: \<open>update\<close> of the animator, then \<open>update\<close> of the blot, with
  the same \<open>deltaTime\<close>.
\<close>

fun frame :: "jsnum \<times> nat \<times> nat \<Rightarrow> BlotAnimator \<Rightarrow> error + BlotAnimator" where
  "frame (deltaTime, now, now') this =
     (case update deltaTime now now' this of
        Inl e \<Rightarrow> Inl e
      | Inr this1 \<Rightarrow> Inr (this1\<lparr> blot := SDFBlot_update deltaTime (blot this1) \<rparr>))"

fun frames :: "(jsnum \<times> nat \<times> nat) list \<Rightarrow> BlotAnimator \<Rightarrow> error + BlotAnimator" where
  "frames [] this = Inr this"
| "frames (f # fs) this =
     (case frame f this of
        Inl e \<Rightarrow> Inl e
      | Inr this1 \<Rightarrow> frames fs this1)"

text \<open>
  What is active after each call of a run; a call that throws ends the list.
\<close>

fun active_after :: "animator_call list \<Rightarrow> BlotAnimator \<Rightarrow> queued option list" where
  "active_after [] this = []"
| "active_after (c # calls) this =
     (case animator_calls [c] this of
        Inl e \<Rightarrow> []
      | Inr this1 \<Rightarrow> currentSequence this1 # active_after calls this1)"

text \<open>
  A sequence started at clock value \<open>start\<close> is complete at \<open>now\<close>, for \<open>update\<close>: it
  is not continuous, its duration is a positive number that has elapsed, and its easing
  is absent or one of the five names of \<open>easingFunctions\<close>.
\<close>

definition complete_by :: "'a sequence_scheme \<Rightarrow> nat \<Rightarrow> nat \<Rightarrow> bool" where
  "complete_by s start now =
     (\<not> continuous_flag s \<and>
      (case duration s of
         Some (Fin d) \<Rightarrow> 0 < d \<and> real start + d \<le> real now
       | _ \<Rightarrow> False) \<and>
      (case easing s of
         None \<Rightarrow> True
       | Some name \<Rightarrow>
           name = [] \<or> name = ''linear'' \<or> name = ''easeInOut'' \<or> name = ''easeOut'' \<or>
           name = ''easeIn'' \<or> name = ''elastic''))"

text \<open>Both morph factors lie in the unit interval.\<close>

definition unit_morph :: "SDFBlot \<Rightarrow> bool" where
  "unit_morph this =
     (Fin 0 \<le> morphFactor this \<and> morphFactor this \<le> Fin 1 \<and>
      Fin 0 \<le> targetMorphFactor this \<and> targetMorphFactor this \<le> Fin 1)"

section \<open>Arithmetic on finite numbers\<close>

lemma Fin_minus [simp]: "Fin a - Fin b = Fin (a - b)"
  by (simp add: minus_jsnum_def)

lemma Fin_divide [simp]: "b \<noteq> 0 \<Longrightarrow> Fin a / Fin b = Fin (a / b)"
  by simp

lemma Math_min_Fin [simp]: "Math_min (Fin a) (Fin b) = Fin (min a b)"
  by (simp add: Math_min_def min_def)

lemma Math_max_Fin [simp]: "Math_max (Fin a) (Fin b) = Fin (max a b)"
  by (simp add: Math_max_def max_def)

lemma Math_abs_Fin [simp]: "Math_abs (Fin a) = Fin \<bar>a\<bar>"
  by (simp add: Math_abs_def)

section \<open>The smooth minimum\<close>

lemma sminQuadratic_Fin:
  assumes "0 < k"
  shows "sminQuadratic (Fin a) (Fin b) (Fin k) =
         Fin (min a b - (max (k * 4 - \<bar>a - b\<bar>) 0 / (k * 4)) * (max (k * 4 - \<bar>a - b\<bar>) 0 / (k * 4)) * (k * 4) * (1 / 4))"
  using assms by (simp add: sminQuadratic_def Let_def)

lemma sminCubic_Fin:
  assumes "0 < k"
  shows "sminCubic (Fin a) (Fin b) (Fin k) =
         Fin (min a b - (max (k * 6 - \<bar>a - b\<bar>) 0 / (k * 6)) * (max (k * 6 - \<bar>a - b\<bar>) 0 / (k * 6)) * (max (k * 6 - \<bar>a - b\<bar>) 0 / (k * 6)) * (k * 6) * (1 / 6))"
  using assms by (simp add: sminCubic_def Let_def)

lemma sqrt_half_less_one: "sqrt 0.5 < (1::real)"
  by (rule real_less_lsqrt) simp_all

lemma circ_width_pos: "0 < k \<Longrightarrow> 0 < k * (1 / (1 - sqrt 0.5))"
  using sqrt_half_less_one by simp

lemma circ_arg_nonneg:
  assumes "0 \<le> h" "h \<le> (1::real)"
  shows "1 \<le> 1 - h * (h - 2)"
proof -
  have "0 \<le> h * (2 - h)" using assms by (intro mult_nonneg_nonneg) simp_all
  then show ?thesis by (simp add: algebra_simps)
qed

lemma circ_term_nonneg:
  assumes "0 \<le> h" "h \<le> (1::real)"
  shows "sqrt (1 - h * (h - 2)) \<le> 1 + h"
proof (rule real_le_lsqrt)
  show "0 \<le> 1 + h" using assms by simp
  have "0 \<le> h * h" by simp
  then show "1 - h * (h - 2) \<le> (1 + h)\<^sup>2" by (simp add: power2_eq_square algebra_simps)
qed

lemma sminCircular_Fin:
  assumes "0 < k" and w: "w = k * (1 / (1 - sqrt 0.5))"
  shows "sminCircular (Fin a) (Fin b) (Fin k) =
         Fin (min a b - w * 0.5 *
              (1 + max (w - \<bar>a - b\<bar>) 0 / w
                 - sqrt (1 - (max (w - \<bar>a - b\<bar>) 0 / w) * (max (w - \<bar>a - b\<bar>) 0 / w - 2))))"
proof -
  let ?h = "max (w - \<bar>a - b\<bar>) 0 / w"
  have wpos: "0 < w" unfolding w using assms(1) by (rule circ_width_pos)
  have h0: "0 \<le> ?h" using wpos by simp
  have h1: "?h \<le> 1" using wpos by simp
  have arg: "\<not> 1 - ?h * (?h - 2) < 0" using circ_arg_nonneg [OF h0 h1] by linarith
  have s: "\<not> 1 - sqrt 0.5 = (0::real)" "\<not> sqrt 0.5 < (0::real)" using sqrt_half_less_one by simp_all
  have k: "Fin k * (Fin 1 / (Fin 1 - Math_sqrt (Fin 0.5))) = Fin w"
    using s by (simp add: w)
  have wn: "w \<noteq> 0" using wpos by simp
  show ?thesis
    unfolding sminCircular_def Let_def k
    using arg wn by simp
qed

lemma Fin_sub_le: "0 \<le> d \<Longrightarrow> Fin (min a b - d) \<le> Math_min (Fin a) (Fin b)"
  by (simp add: min_def)

lemma smin_quadratic_le:
  assumes "0 < k"
  shows "sminQuadratic (Fin a) (Fin b) (Fin k) \<le> Math_min (Fin a) (Fin b)"
proof -
  let ?h = "max (k * 4 - \<bar>a - b\<bar>) 0 / (k * 4)"
  have "0 \<le> ?h" using assms by simp
  then have "0 \<le> ?h * ?h * (k * 4) * (1 / 4)" using assms by simp
  then show ?thesis unfolding sminQuadratic_Fin [OF assms] by (rule Fin_sub_le)
qed

lemma smin_cubic_le:
  assumes "0 < k"
  shows "sminCubic (Fin a) (Fin b) (Fin k) \<le> Math_min (Fin a) (Fin b)"
proof -
  let ?h = "max (k * 6 - \<bar>a - b\<bar>) 0 / (k * 6)"
  have "0 \<le> ?h" using assms by simp
  then have "0 \<le> ?h * ?h * ?h * (k * 6) * (1 / 6)" using assms by simp
  then show ?thesis unfolding sminCubic_Fin [OF assms] by (rule Fin_sub_le)
qed

lemma smin_circular_le:
  assumes "0 < k"
  shows "sminCircular (Fin a) (Fin b) (Fin k) \<le> Math_min (Fin a) (Fin b)"
proof -
  define w where "w = k * (1 / (1 - sqrt 0.5))"
  let ?h = "max (w - \<bar>a - b\<bar>) 0 / w"
  have wpos: "0 < w" unfolding w_def using assms by (rule circ_width_pos)
  have h0: "0 \<le> ?h" using wpos by simp
  have h1: "?h \<le> 1" using wpos by simp
  have "0 \<le> 1 + ?h - sqrt (1 - ?h * (?h - 2))"
    using circ_term_nonneg [OF h0 h1] by simp
  then have "0 \<le> w * 0.5 * (1 + ?h - sqrt (1 - ?h * (?h - 2)))"
    using wpos by (intro mult_nonneg_nonneg) simp_all
  then show ?thesis unfolding sminCircular_Fin [OF assms w_def] by (rule Fin_sub_le)
qed

lemma smin_quadratic_eq:
  assumes "0 < k" "k * 4 \<le> \<bar>a - b\<bar>"
  shows "sminQuadratic (Fin a) (Fin b) (Fin k) = Math_min (Fin a) (Fin b)"
proof -
  have "max (k * 4 - \<bar>a - b\<bar>) 0 = 0" using assms(2) by simp
  then show ?thesis by (simp add: sminQuadratic_Fin [OF assms(1)])
qed

lemma smin_cubic_eq:
  assumes "0 < k" "k * 6 \<le> \<bar>a - b\<bar>"
  shows "sminCubic (Fin a) (Fin b) (Fin k) = Math_min (Fin a) (Fin b)"
proof -
  have "max (k * 6 - \<bar>a - b\<bar>) 0 = 0" using assms(2) by simp
  then show ?thesis by (simp add: sminCubic_Fin [OF assms(1)])
qed

lemma smin_circular_eq:
  assumes "0 < k" "k * (1 / (1 - sqrt 0.5)) \<le> \<bar>a - b\<bar>"
  shows "sminCircular (Fin a) (Fin b) (Fin k) = Math_min (Fin a) (Fin b)"
proof -
  define w where "w = k * (1 / (1 - sqrt 0.5))"
  have "max (w - \<bar>a - b\<bar>) 0 = 0" using assms(2) by (simp add: w_def)
  then show ?thesis by (simp add: sminCircular_Fin [OF assms(1) w_def])
qed

text \<open>
  C4. For all finite \<open>a\<close>, \<open>b\<close> and every \<open>k > 0\<close>, each of the three smooth minimums
  (quadratic, cubic, circular) is at most \<open>min(a, b)\<close>, and it is exactly \<open>min(a, b)\<close>
  when \<open>|a - b|\<close> is at least the blend width of the variant: \<open>k\<close> times 4, 6 and
  \<open>1 / (1 - sqrt 0.5)\<close>.
\<close>

theorem smin_conservative:
  "0 < k \<Longrightarrow>
     sminQuadratic (Fin a) (Fin b) (Fin k) \<le> Math_min (Fin a) (Fin b) \<and>
     sminCubic (Fin a) (Fin b) (Fin k) \<le> Math_min (Fin a) (Fin b) \<and>
     sminCircular (Fin a) (Fin b) (Fin k) \<le> Math_min (Fin a) (Fin b) \<and>
     (k * 4 \<le> \<bar>a - b\<bar> \<longrightarrow>
        sminQuadratic (Fin a) (Fin b) (Fin k) = Math_min (Fin a) (Fin b)) \<and>
     (k * 6 \<le> \<bar>a - b\<bar> \<longrightarrow>
        sminCubic (Fin a) (Fin b) (Fin k) = Math_min (Fin a) (Fin b)) \<and>
     (k * (1 / (1 - sqrt 0.5)) \<le> \<bar>a - b\<bar> \<longrightarrow>
        sminCircular (Fin a) (Fin b) (Fin k) = Math_min (Fin a) (Fin b))"
  using smin_quadratic_le [of k a b] smin_cubic_le [of k a b] smin_circular_le [of k a b]
    smin_quadratic_eq [of k a b] smin_cubic_eq [of k a b] smin_circular_eq [of k a b]
  by blast

theorem smin_conservative_witness:
  "sminQuadratic (Fin 0) (Fin 10) (Fin 1) = Fin 0 \<and>
   sminCubic (Fin 0) (Fin 10) (Fin 1) = Fin 0 \<and>
   sminCircular (Fin 0) (Fin 10) (Fin 1) = Fin 0 \<and>
   sminQuadratic (Fin 0) (Fin 1) (Fin 1) \<le> Fin 0"
proof -
  have k: "(0::real) < 1" by simp
  have "sqrt 0.5 \<le> (0.9::real)" by (rule real_le_lsqrt) (simp_all add: power2_eq_square)
  then have w: "(1::real) * (1 / (1 - sqrt 0.5)) \<le> \<bar>0 - 10\<bar>"
    by (simp add: field_simps)
  show ?thesis
    using smin_conservative [OF k, of 0 10] smin_conservative [OF k, of 0 1] w by simp
qed

section \<open>Mode transitions\<close>

text \<open>
  C3, as stated, fails at the mode string \<open>menuExpanded\<close>: the table of \<open>setState\<close> has
  no such key, and the target morph factor is not set to 1.
\<close>

theorem setState_menuExpanded_counterexample:
  "targetMorphFactor (setState ''menuExpanded'' (SDFBlot_new 300 150 (Fin 100) (Fin 100))) \<noteq> Fin 1"
  by (simp add: setState_def SDFBlot_new_def)

text \<open>
  C3, amended. \<open>setState\<close> assigns the target morph factor by the table \<open>idle\<close> to 0,
  \<open>active\<close> to 0.3, \<open>menu-expanded\<close> to 1, and for a mode string that is none of
  \<open>idle\<close>, \<open>active\<close>, \<open>menu-expanded\<close>, \<open>menuExpanded\<close> it leaves the target morph
  factor unchanged.
\<close>

theorem setState_table:
  "targetMorphFactor (setState ''idle'' this) = Fin 0 \<and>
   targetMorphFactor (setState ''active'' this) = Fin 0.3 \<and>
   targetMorphFactor (setState ''menu-expanded'' this) = Fin 1 \<and>
   (m \<noteq> ''idle'' \<and> m \<noteq> ''active'' \<and> m \<noteq> ''menu-expanded'' \<and> m \<noteq> ''menuExpanded'' \<longrightarrow>
      targetMorphFactor (setState m this) = targetMorphFactor this)"
  by (simp add: setState_def)

theorem setState_table_witness:
  "targetMorphFactor (setState ''hover'' (SDFBlot_new 300 150 (Fin 100) (Fin 100))) = Fin 0"
  using setState_table [of "SDFBlot_new 300 150 (Fin 100) (Fin 100)" "''hover''"]
  by (simp add: SDFBlot_new_def)

section \<open>The morph factor stays in the unit interval\<close>

lemma unit_morph_Fin:
  "unit_morph this =
     (\<exists>m t. morphFactor this = Fin m \<and> targetMorphFactor this = Fin t \<and>
            0 \<le> m \<and> m \<le> 1 \<and> 0 \<le> t \<and> t \<le> 1)"
  unfolding unit_morph_def
  by (cases "morphFactor this"; cases "targetMorphFactor this") auto

lemma unit_morph_setState: "unit_morph this \<Longrightarrow> unit_morph (setState m this)"
  by (auto simp: unit_morph_def setState_def Let_def)

lemma unit_morph_update:
  assumes "unit_morph this"
  shows "unit_morph (SDFBlot_update dt this)"
proof -
  from assms obtain m t where
    mt: "morphFactor this = Fin m" "targetMorphFactor this = Fin t"
        "0 \<le> m" "m \<le> 1" "0 \<le> t" "t \<le> 1"
    unfolding unit_morph_Fin by blast
  have lo: "0 \<le> m + (t - m) * 0.1" using mt by argo
  have hi: "m + (t - m) * 0.1 \<le> 1" using mt by argo
  have "morphFactor (SDFBlot_update dt this) = Fin (m + (t - m) * 0.1)"
    using mt by (simp add: SDFBlot_update_def Let_def)
  moreover have "targetMorphFactor (SDFBlot_update dt this) = Fin t"
    using mt by (simp add: SDFBlot_update_def Let_def)
  ultimately show ?thesis
    unfolding unit_morph_Fin using mt lo hi by blast
qed

lemma unit_morph_calls: "unit_morph this \<Longrightarrow> unit_morph (blot_calls calls this)"
proof (induction calls arbitrary: this)
  case Nil
  then show ?case by simp
next
  case (Cons c calls)
  then show ?case
    by (cases c) (simp_all add: unit_morph_setState unit_morph_update)
qed

text \<open>
  C8. From a morph factor and a target morph factor of 0, after any sequence of calls of
  \<open>setState\<close> (with any mode string, the valid ones among them) and of \<open>update\<close>, both
  are in the interval from 0 to 1.
\<close>

theorem morph_in_unit_interval:
  "morphFactor this = Fin 0 \<Longrightarrow> targetMorphFactor this = Fin 0 \<Longrightarrow>
     Fin 0 \<le> morphFactor (blot_calls calls this) \<and> morphFactor (blot_calls calls this) \<le> Fin 1 \<and>
     Fin 0 \<le> targetMorphFactor (blot_calls calls this) \<and>
     targetMorphFactor (blot_calls calls this) \<le> Fin 1"
proof -
  assume "morphFactor this = Fin 0" "targetMorphFactor this = Fin 0"
  then have "unit_morph this" by (simp add: unit_morph_def)
  then have "unit_morph (blot_calls calls this)" by (rule unit_morph_calls)
  then show ?thesis by (simp add: unit_morph_def)
qed

theorem morph_in_unit_interval_witness:
  "Fin 0 \<le> morphFactor (blot_calls [SetState ''menu-expanded'', Update (Fin 16), SetState ''active'', Update (Fin 16)]
                          (SDFBlot_new 300 150 (Fin 100) (Fin 100))) \<and>
   morphFactor (blot_calls [SetState ''menu-expanded'', Update (Fin 16), SetState ''active'', Update (Fin 16)]
                          (SDFBlot_new 300 150 (Fin 100) (Fin 100))) \<le> Fin 1"
proof -
  have a: "morphFactor (SDFBlot_new 300 150 (Fin 100) (Fin 100)) = Fin 0"
    by (simp add: SDFBlot_new_def)
  have b: "targetMorphFactor (SDFBlot_new 300 150 (Fin 100) (Fin 100)) = Fin 0"
    by (simp add: SDFBlot_new_def)
  show ?thesis using morph_in_unit_interval [OF a b] by blast
qed

section \<open>Exponential smoothing\<close>

subsection \<open>Rounding to the nearest binary64 number\<close>

lemma rhe_cases:
  "round_half_even u = \<lfloor>u\<rfloor> \<or> round_half_even u = \<lfloor>u\<rfloor> + 1"
  by (simp add: round_half_even_def Let_def)

lemma rhe_half: "\<bar>of_int (round_half_even u) - u\<bar> \<le> 1 / 2"
proof -
  have "of_int \<lfloor>u\<rfloor> \<le> u" "u < of_int \<lfloor>u\<rfloor> + 1" by linarith+
  then show ?thesis
    by (auto simp: round_half_even_def Let_def abs_le_iff)
qed

lemma rhe_nearest: "\<bar>of_int (round_half_even u) - u\<bar> \<le> \<bar>of_int k - u\<bar>"
proof (cases "k = round_half_even u")
  case True
  then show ?thesis by simp
next
  case False
  have fl: "of_int \<lfloor>u\<rfloor> \<le> u" "u < of_int \<lfloor>u\<rfloor> + 1" by linarith+
  consider "k \<le> \<lfloor>u\<rfloor> - 1" | "k = \<lfloor>u\<rfloor>" | "k = \<lfloor>u\<rfloor> + 1" | "\<lfloor>u\<rfloor> + 2 \<le> k"
    by linarith
  then show ?thesis
  proof cases
    case 1
    then have "of_int k \<le> of_int \<lfloor>u\<rfloor> - (1::real)" by linarith
    then have "1 \<le> \<bar>of_int k - u\<bar>" using fl by linarith
    then show ?thesis using rhe_half [of u] by linarith
  next
    case 2
    then have r: "round_half_even u = \<lfloor>u\<rfloor> + 1" using False rhe_cases [of u] by auto
    then have "\<not> u - of_int \<lfloor>u\<rfloor> < 1 / 2"
      by (auto simp: round_half_even_def Let_def split: if_splits)
    then have "\<bar>of_int (\<lfloor>u\<rfloor> + 1) - u\<bar> \<le> \<bar>of_int \<lfloor>u\<rfloor> - u\<bar>"
      using fl by simp
    then show ?thesis unfolding r 2 .
  next
    case 3
    then have r: "round_half_even u = \<lfloor>u\<rfloor>" using False rhe_cases [of u] by auto
    then have "\<not> 1 / 2 < u - of_int \<lfloor>u\<rfloor>"
      by (auto simp: round_half_even_def Let_def split: if_splits)
    then have "\<bar>of_int \<lfloor>u\<rfloor> - u\<bar> \<le> \<bar>of_int (\<lfloor>u\<rfloor> + 1) - u\<bar>"
      using fl by simp
    then show ?thesis unfolding r 3 .
  next
    case 4
    then have "of_int \<lfloor>u\<rfloor> + (2::real) \<le> of_int k" by linarith
    then have "1 \<le> \<bar>of_int k - u\<bar>" using fl by linarith
    then show ?thesis using rhe_half [of u] by linarith
  qed
qed

lemma rhe_nonneg: "0 \<le> u \<Longrightarrow> 0 \<le> round_half_even u"
proof -
  assume "0 \<le> u"
  then have "0 \<le> \<lfloor>u\<rfloor>" by simp
  then show ?thesis using rhe_cases [of u] by linarith
qed

lemma rhe_less_double:
  assumes "0 < u"
  shows "of_int (round_half_even u) < 2 * u"
proof (cases "round_half_even u \<le> 0")
  case True
  then have "of_int (round_half_even u) \<le> (0::real)" by simp
  then show ?thesis using assms by linarith
next
  case False
  then have one: "1 \<le> round_half_even u" by simp
  have fl: "of_int \<lfloor>u\<rfloor> \<le> u" "u < of_int \<lfloor>u\<rfloor> + 1" by linarith+
  have "1 / 2 < u"
  proof (rule ccontr)
    assume "\<not> 1 / 2 < u"
    then have u: "u \<le> 1 / 2" by simp
    then have f0: "\<lfloor>u\<rfloor> = 0" using assms by linarith
    have "round_half_even u = 0"
      using u assms by (simp add: round_half_even_def Let_def f0)
    then show False using one by simp
  qed
  moreover have "of_int (round_half_even u) \<le> u + 1 / 2"
    using rhe_half [of u] by linarith
  ultimately show ?thesis by linarith
qed

lemma rhe_minus: "round_half_even (- u) = - round_half_even u"
proof (cases "u = of_int \<lfloor>u\<rfloor>")
  case True
  then obtain k where k: "u = of_int k" by blast
  show ?thesis by (simp add: k round_half_even_def Let_def)
next
  case False
  then have fl: "of_int \<lfloor>u\<rfloor> < u" "u < of_int \<lfloor>u\<rfloor> + 1" by linarith+
  have "of_int (- \<lfloor>u\<rfloor> - 1) \<le> - u" using fl(2) by (simp; linarith)
  moreover have "- u < of_int (- \<lfloor>u\<rfloor> - 1) + 1" using fl(1) by simp
  ultimately have f: "\<lfloor>- u\<rfloor> = - \<lfloor>u\<rfloor> - 1" by (rule floor_unique)
  show ?thesis
    using fl by (auto simp: round_half_even_def Let_def f)
qed


lemma rhe_le_int:
  assumes "u \<le> of_int N"
  shows "round_half_even u \<le> N"
proof (rule ccontr)
  assume "\<not> round_half_even u \<le> N"
  then have "N + 1 \<le> round_half_even u" by simp
  then have "of_int N + (1::real) \<le> of_int (round_half_even u)" by linarith
  moreover have "\<bar>of_int (round_half_even u) - u\<bar> \<le> \<bar>of_int N - u\<bar>" by (rule rhe_nearest)
  ultimately show False using assms by linarith
qed

lemma ulp_exp_minus [simp]: "ulp_exp (- r) = ulp_exp r"
  by (simp add: ulp_exp_def)

lemma round53_zero [simp]: "round53 0 = 0"
  by (simp add: round53_def)

lemma round53_minus: "round53 (- r) = - round53 r"
  by (simp add: round53_def Let_def rhe_minus)

lemma round53_pos:
  assumes "0 < r"
  shows "0 \<le> round53 r" and "round53 r < 2 * r"
proof -
  let ?q = "2 powr of_int (ulp_exp r) :: real"
  have q: "0 < ?q" by simp
  have r: "round53 r = of_int (round_half_even (r / ?q)) * ?q"
    using assms by (simp add: round53_def Let_def)
  have u: "0 < r / ?q" using assms q by simp
  then have "0 \<le> round_half_even (r / ?q)" by (intro rhe_nonneg) simp
  then show "0 \<le> round53 r" unfolding r by simp
  have "of_int (round_half_even (r / ?q)) < 2 * (r / ?q)" using u by (rule rhe_less_double)
  then have "of_int (round_half_even (r / ?q)) * ?q < 2 * (r / ?q) * ?q"
    using q by (rule mult_strict_right_mono)
  then show "round53 r < 2 * r" unfolding r using q by simp
qed

lemma abs_scale:
  fixes a r q :: real
  assumes "0 < q"
  shows "\<bar>a - r / q\<bar> * q = \<bar>a * q - r\<bar>"
proof -
  have "\<bar>a - r / q\<bar> * q = \<bar>a - r / q\<bar> * \<bar>q\<bar>" using assms by simp
  also have "\<dots> = \<bar>(a - r / q) * q\<bar>" by (simp only: abs_mult)
  also have "(a - r / q) * q = a * q - r" using assms by (simp add: left_diff_distrib)
  finally show ?thesis .
qed

lemma round53_grid:
  assumes "r \<noteq> 0"
  shows "\<bar>round53 r - r\<bar> \<le> \<bar>of_int k * 2 powr of_int (ulp_exp r) - r\<bar>"
proof -
  let ?q = "2 powr of_int (ulp_exp r) :: real"
  have q: "0 < ?q" by simp
  have r: "round53 r = of_int (round_half_even (r / ?q)) * ?q"
    using assms by (simp add: round53_def Let_def)
  have "\<bar>of_int (round_half_even (r / ?q)) - r / ?q\<bar> \<le> \<bar>of_int k - r / ?q\<bar>"
    by (rule rhe_nearest)
  then have "\<bar>of_int (round_half_even (r / ?q)) - r / ?q\<bar> * ?q \<le> \<bar>of_int k - r / ?q\<bar> * ?q"
    using q by (intro mult_right_mono) simp_all
  then show ?thesis unfolding r abs_scale [OF q] .
qed

lemma pow2_int_multiple:
  assumes "e1 \<le> e2"
  shows "(2::real) powr of_int e2 = of_int (2 ^ nat (e2 - e1)) * 2 powr of_int e1"
proof -
  define n where "n = nat (e2 - e1)"
  have e: "e2 = int n + e1" using assms by (simp add: n_def)
  have "(2::real) powr (real n + of_int e1) = 2 powr real n * 2 powr of_int e1"
    by (rule powr_add)
  moreover have "(2::real) powr real n = 2 ^ n" by (simp add: powr_realpow)
  moreover have "(of_int (int n + e1) :: real) = real n + of_int e1" by simp
  ultimately have "(2::real) powr of_int (int n + e1) = 2 ^ n * 2 powr of_int e1"
    by (simp only:)
  then show ?thesis unfolding n_def [symmetric] e by simp
qed

lemma floor_log2_bounds:
  assumes "0 < a"
  shows "(2::real) powr of_int \<lfloor>log 2 a\<rfloor> \<le> a" and "a < (2::real) powr of_int (\<lfloor>log 2 a\<rfloor> + 1)"
proof -
  have "of_int \<lfloor>log 2 a\<rfloor> \<le> log 2 a" by simp
  then have "2 powr of_int \<lfloor>log 2 a\<rfloor> \<le> 2 powr log 2 a" by simp
  then show "2 powr of_int \<lfloor>log 2 a\<rfloor> \<le> a" using assms by simp
  have "log 2 a < of_int (\<lfloor>log 2 a\<rfloor> + 1)" by simp
  then have "2 powr log 2 a < 2 powr of_int (\<lfloor>log 2 a\<rfloor> + 1)" by (simp del: of_int_add)
  then show "a < 2 powr of_int (\<lfloor>log 2 a\<rfloor> + 1)" using assms by simp
qed

lemma round53_le_pow2:
  assumes "0 < z" "z \<le> (2::real) powr of_int E" "ulp_exp z \<le> E"
  shows "round53 z \<le> (2::real) powr of_int E"
proof -
  let ?q = "2 powr of_int (ulp_exp z) :: real"
  have q: "0 < ?q" by simp
  have r: "round53 z = of_int (round_half_even (z / ?q)) * ?q"
    using assms(1) by (simp add: round53_def Let_def)
  have m: "(2::real) powr of_int E = of_int (2 ^ nat (E - ulp_exp z)) * ?q"
    using assms(3) by (rule pow2_int_multiple)
  have "z / ?q \<le> of_int (2 ^ nat (E - ulp_exp z))"
    using assms(2) q unfolding m by (simp add: field_simps)
  then have "round_half_even (z / ?q) \<le> 2 ^ nat (E - ulp_exp z)" by (rule rhe_le_int)
  then have "(of_int (round_half_even (z / ?q)) :: real) \<le> of_int (2 ^ nat (E - ulp_exp z))"
    by (simp only: of_int_le_iff)
  then have "of_int (round_half_even (z / ?q)) * ?q \<le> of_int (2 ^ nat (E - ulp_exp z)) * ?q"
    using q by (intro mult_right_mono) simp_all
  then show ?thesis unfolding r m .
qed


lemma round53_on_grid:
  assumes "z \<noteq> 0" "ulp_exp y \<le> ulp_exp z"
  shows "\<exists>k. round53 z = of_int k * 2 powr of_int (ulp_exp y)"
proof -
  have r: "round53 z = of_int (round_half_even (z / 2 powr of_int (ulp_exp z))) * 2 powr of_int (ulp_exp z)"
    using assms(1) by (simp add: round53_def Let_def)
  have m: "(2::real) powr of_int (ulp_exp z) =
           of_int (2 ^ nat (ulp_exp z - ulp_exp y)) * 2 powr of_int (ulp_exp y)"
    using assms(2) by (rule pow2_int_multiple)
  have "round53 z =
        of_int (round_half_even (z / 2 powr of_int (ulp_exp z)) * 2 ^ nat (ulp_exp z - ulp_exp y))
        * 2 powr of_int (ulp_exp y)"
    by (subst r, subst (2) m) simp
  then show ?thesis by blast
qed

lemma round53_nearest_pos:
  assumes y: "0 < y"
  shows "\<bar>round53 y - y\<bar> \<le> \<bar>round53 z - y\<bar>"
proof -
  have y0: "y \<noteq> 0" using y by simp
  consider "z = 0" | "z \<noteq> 0" "ulp_exp y \<le> ulp_exp z" | "z \<noteq> 0" "ulp_exp z < ulp_exp y"
    by linarith
  then show ?thesis
  proof cases
    case 1
    from round53_grid [OF y0, of 0] show ?thesis by (simp add: 1)
  next
    case 2
    from round53_on_grid [OF 2] obtain k where "round53 z = of_int k * 2 powr of_int (ulp_exp y)"
      by blast
    then show ?thesis using round53_grid [OF y0, of k] by simp
  next
    case 3
    define Ey where "Ey = \<lfloor>log 2 y\<rfloor>"
    define Ez where "Ez = \<lfloor>log 2 \<bar>z\<bar>\<rfloor>"
    have az: "0 < \<bar>z\<bar>" using 3(1) by simp
    have exz: "Ez - 52 \<le> ulp_exp z" "- 1074 \<le> ulp_exp z"
      by (simp_all add: ulp_exp_def Ez_def)
    have exy: "ulp_exp y = Ey - 52"
      using 3(2) exz(2) y by (simp add: ulp_exp_def Ey_def max_def split: if_splits)
    have lt: "Ez + 1 \<le> Ey" using 3(2) exz(1) exy by linarith
    have B: "(2::real) powr of_int Ey \<le> y" unfolding Ey_def using y by (rule floor_log2_bounds)
    have "\<bar>z\<bar> < 2 powr of_int (Ez + 1)" unfolding Ez_def using az by (rule floor_log2_bounds)
    also have "\<dots> \<le> 2 powr of_int Ey" using lt by simp
    finally have zB: "\<bar>z\<bar> \<le> 2 powr of_int Ey" by simp
    have "ulp_exp \<bar>z\<bar> \<le> Ey" using 3(2) exy by (simp add: ulp_exp_def)
    from round53_le_pow2 [OF az zB this] have rz: "round53 \<bar>z\<bar> \<le> 2 powr of_int Ey" .
    have "\<bar>round53 z\<bar> = round53 \<bar>z\<bar>"
    proof (cases "0 < z")
      case True
      then show ?thesis using round53_pos(1) [of z] by simp
    next
      case False
      then have n: "z < 0" using 3(1) by simp
      then have "0 \<le> round53 (- z)" using round53_pos(1) [of "- z"] by simp
      then show ?thesis using n by (simp add: round53_minus abs_if)
    qed
    then have "round53 z \<le> 2 powr of_int Ey" using rz by linarith
    then have far: "\<bar>2 powr of_int Ey - y\<bar> \<le> \<bar>round53 z - y\<bar>" using B by linarith
    have "(2::real) powr of_int Ey = of_int (2 ^ nat (Ey - ulp_exp y)) * 2 powr of_int (ulp_exp y)"
      by (rule pow2_int_multiple) (simp add: exy)
    then have "\<bar>round53 y - y\<bar> \<le> \<bar>2 powr of_int Ey - y\<bar>"
      using round53_grid [OF y0, of "2 ^ nat (Ey - ulp_exp y)"] by simp
    then show ?thesis using far by linarith
  qed
qed

lemma round53_nearest: "\<bar>round53 y - y\<bar> \<le> \<bar>round53 z - y\<bar>"
proof -
  consider "y = 0" | "0 < y" | "y < 0" by linarith
  then show ?thesis
  proof cases
    case 1
    then show ?thesis by simp
  next
    case 2
    then show ?thesis by (rule round53_nearest_pos)
  next
    case 3
    then have "0 < - y" by simp
    from round53_nearest_pos [OF this, of "- z"]
    have "\<bar>- round53 y + y\<bar> \<le> \<bar>- round53 z + y\<bar>" by (simp add: round53_minus)
    then show ?thesis by (simp add: abs_minus_commute [of "round53 y" y] abs_minus_commute [of "round53 z" y]) 
  qed
qed


lemma round53_idem [simp]: "round53 (round53 y) = round53 y"
  using round53_nearest [of "round53 y" y] by simp












subsection \<open>One step of one coordinate\<close>











subsection \<open>Iterated updates\<close>




subsection \<open>A fixed point short of the target\<close>




subsection \<open>The approach\<close>



section \<open>Move sequences\<close>

lemma floor_real_pred: "\<lfloor>real n - 1\<rfloor> = int n - 1"
  by linarith

lemma updateMoveAnimation_end:
  assumes "currentSequence this = Some cs" "stype cs = move wps" "2 \<le> length wps"
  shows "updateMoveAnimation (Fin 1) this =
         Inr (this\<lparr> blot := moveTo (fst (last wps)) (snd (last wps)) (blot this) \<rparr>)"
  using assms by (simp add: updateMoveAnimation_def Let_def floor_real_pred)

lemma updateMoveAnimation_short:
  assumes "currentSequence this = Some cs" "stype cs = move wps" "length wps < 2"
  shows "updateMoveAnimation p this = Inr this"
  using assms by (simp add: updateMoveAnimation_def)

text \<open>
  C7, as stated, fails for a single waypoint: a move sequence whose only waypoint is
  \<open>(300, 300)\<close>, at progress 1, leaves the target position of the blot at
  \<open>(100, 100)\<close>.
\<close>

theorem move_end_single_waypoint_counterexample:
  "updateMoveAnimation (Fin 1)
     \<lparr> blot = SDFBlot_new 300 150 (Fin 100) (Fin 100),
       animationQueue = [],
       isAnimating = True,
       currentSequence =
         Some \<lparr> stype = move [(Fin 300, Fin 300)], duration = Some (Fin 800),
                easing = Some ''easeInOut'', startTime = Some (Fin 0), continuous_flag = False,
                priority = 9 \<rparr> \<rparr>
   = Inr \<lparr> blot = SDFBlot_new 300 150 (Fin 100) (Fin 100),
           animationQueue = [],
           isAnimating = True,
           currentSequence =
             Some \<lparr> stype = move [(Fin 300, Fin 300)], duration = Some (Fin 800),
                    easing = Some ''easeInOut'', startTime = Some (Fin 0), continuous_flag = False,
                    priority = 9 \<rparr> \<rparr>
   \<and> targetX (SDFBlot_new 300 150 (Fin 100) (Fin 100)) \<noteq> Fin 300"
  by (simp add: updateMoveAnimation_def SDFBlot_new_def)

text \<open>
  C7, amended. For every move sequence with at least two waypoints, at progress 1 the
  move update writes exactly the coordinates of the final waypoint to the target position
  of the blot; with fewer than two waypoints it writes nothing.
\<close>

theorem move_end_writes_final:
  "currentSequence this = Some cs \<Longrightarrow> stype cs = move wps \<Longrightarrow>
     (2 \<le> length wps \<longrightarrow>
        updateMoveAnimation (Fin 1) this =
          Inr (this\<lparr> blot := (blot this)\<lparr> targetX := fst (last wps), targetY := snd (last wps) \<rparr> \<rparr>)) \<and>
     (length wps < 2 \<longrightarrow> updateMoveAnimation (Fin 1) this = Inr this)"
  using updateMoveAnimation_end [of this cs wps] updateMoveAnimation_short [of this cs wps "Fin 1"]
  by (simp add: moveTo_def)

theorem move_end_writes_final_witness:
  "updateMoveAnimation (Fin 1)
     \<lparr> blot = SDFBlot_new 300 150 (Fin 100) (Fin 100),
       animationQueue = [],
       isAnimating = True,
       currentSequence =
         Some \<lparr> stype = move [(Fin 100, Fin 100), (Fin 60, Fin 120), (Fin 300, Fin 300)],
                duration = Some (Fin 800),
                easing = Some ''easeInOut'', startTime = Some (Fin 0), continuous_flag = False,
                priority = 9 \<rparr> \<rparr>
   = Inr \<lparr> blot = (SDFBlot_new 300 150 (Fin 100) (Fin 100))\<lparr> targetX := Fin 300, targetY := Fin 300 \<rparr>,
           animationQueue = [],
           isAnimating = True,
           currentSequence =
             Some \<lparr> stype = move [(Fin 100, Fin 100), (Fin 60, Fin 120), (Fin 300, Fin 300)],
                    duration = Some (Fin 800),
                    easing = Some ''easeInOut'', startTime = Some (Fin 0), continuous_flag = False,
                    priority = 9 \<rparr> \<rparr>"
  using move_end_writes_final
    [of "\<lparr> blot = SDFBlot_new 300 150 (Fin 100) (Fin 100),
       animationQueue = [],
       isAnimating = True,
       currentSequence =
         Some \<lparr> stype = move [(Fin 100, Fin 100), (Fin 60, Fin 120), (Fin 300, Fin 300)],
                duration = Some (Fin 800),
                easing = Some ''easeInOut'', startTime = Some (Fin 0), continuous_flag = False,
                priority = 9 \<rparr> \<rparr>"
        "\<lparr> stype = move [(Fin 100, Fin 100), (Fin 60, Fin 120), (Fin 300, Fin 300)],
                duration = Some (Fin 800),
                easing = Some ''easeInOut'', startTime = Some (Fin 0), continuous_flag = False,
                priority = 9 \<rparr>"
        "[(Fin 100, Fin 100), (Fin 60, Fin 120), (Fin 300, Fin 300)]"]
  by simp

section \<open>The avoidance detour\<close>

lemma finite_pow_two [simp]: "finite_pow b 2 = Fin (b\<^sup>2)"
proof (cases "0 < b")
  case True
  then show ?thesis by (simp add: finite_pow_def)
next
  case False
  have "\<lfloor>2::real\<rfloor> = 2" by simp
  then show ?thesis using False by (simp add: finite_pow_def)
qed

lemma detour_waypoints:
  assumes "blot_x (blot this) = Fin 0" "blot_y (blot this) = Fin 0"
  shows "waypoints (stype (createMoveSequence win rnd (Fin 200) (Fin 0) (Fin 50) (Fin 0) dur this)) =
         [(Fin 0, Fin 0),
          (Fin 60,
           if 0.5 < rnd then Fin (max 60 (min (real (innerHeight win) - 60) 120)) else Fin 60),
          (Fin 200, Fin 0)]"
  using assms
  by (simp add: createMoveSequence_def Let_def Math_PI_def cos_add sin_add)


lemma detour_clamp:
  "(Math_max (Fin 60) (Math_min (Fin (real w) - Fin 60) (Fin 50)),
    Math_max (Fin 60) (Math_min (Fin (real h) - Fin 60) (if 0.5 < (rnd::real) then Fin 120 else Fin (- 120))))
   = (Fin 60, if 0.5 < rnd then Fin (max 60 (min (real h - 60) 120)) else Fin 60)"
  by simp

text \<open>
  C6, as stated, fails: in a viewport of 1920 by 1080 the middle waypoint is \<open>(60, 120)\<close>
  for a random draw above 0.5 and \<open>(60, 60)\<close> otherwise, at distance \<open>sqrt 14500\<close> and
  \<open>sqrt 3700\<close> from the avoid point \<open>(50, 0)\<close>, not 120.
\<close>

theorem detour_distance_counterexample:
  "waypoints (stype (createMoveSequence \<lparr> innerWidth = 1920, innerHeight = 1080 \<rparr> 0.7
       (Fin 200) (Fin 0) (Fin 50) (Fin 0) (Some (Fin 800))
       (BlotAnimator_new (SDFBlot_new 300 150 (Fin 0) (Fin 0))))) ! 1 = (Fin 60, Fin 120) \<and>
   waypoints (stype (createMoveSequence \<lparr> innerWidth = 1920, innerHeight = 1080 \<rparr> 0.3
       (Fin 200) (Fin 0) (Fin 50) (Fin 0) (Some (Fin 800))
       (BlotAnimator_new (SDFBlot_new 300 150 (Fin 0) (Fin 0))))) ! 1 = (Fin 60, Fin 60) \<and>
   Math_sqrt (Math_pow (Fin 60 - Fin 50) (Fin 2) + Math_pow (Fin 120 - Fin 0) (Fin 2)) \<noteq> Fin 120 \<and>
   Math_sqrt (Math_pow (Fin 60 - Fin 50) (Fin 2) + Math_pow (Fin 60 - Fin 0) (Fin 2)) \<noteq> Fin 120"
proof -
  let ?A = "BlotAnimator_new (SDFBlot_new 300 150 (Fin 0) (Fin 0))"
  have a: "blot_x (blot ?A) = Fin 0" "blot_y (blot ?A) = Fin 0"
    by (simp_all add: BlotAnimator_new_def SDFBlot_new_def)
  have "sqrt 14500 \<noteq> 120"
  proof
    assume "sqrt 14500 = 120"
    then have "(sqrt 14500)\<^sup>2 = 120\<^sup>2" by simp
    then show False by simp
  qed
  moreover have "sqrt 3700 \<noteq> 120"
  proof
    assume "sqrt 3700 = 120"
    then have "(sqrt 3700)\<^sup>2 = 120\<^sup>2" by simp
    then show False by simp
  qed
  ultimately show ?thesis
    by (simp add: detour_waypoints [OF a])
qed

text \<open>
  C6, amended. With the blot at \<open>(0, 0)\<close>, \<open>createMoveSequence(200, 0, 50, 0, duration)\<close>
  returns three waypoints: the start, the target, and between them the point
  \<open>(50, 120)\<close> or \<open>(50, -120)\<close> (by the random draw; it is the point at distance 120
  from the avoid point) clamped on each axis, first from above to the viewport size less
  60 and then from below to 60. In a viewport at least 120 wide and high the middle
  waypoint is at least 60 inside each edge.
\<close>

theorem detour_clamped:
  "blot_x (blot this) = Fin 0 \<Longrightarrow> blot_y (blot this) = Fin 0 \<Longrightarrow>
     (\<exists>mid.
        waypoints (stype (createMoveSequence win rnd (Fin 200) (Fin 0) (Fin 50) (Fin 0) dur this)) =
          [(Fin 0, Fin 0), mid, (Fin 200, Fin 0)] \<and>
        mid = (Math_max (Fin 60) (Math_min (Fin (real (innerWidth win)) - Fin 60) (Fin 50)),
               Math_max (Fin 60) (Math_min (Fin (real (innerHeight win)) - Fin 60)
                                           (if 0.5 < rnd then Fin 120 else Fin (- 120)))) \<and>
        (120 \<le> innerWidth win \<and> 120 \<le> innerHeight win \<longrightarrow>
           Fin 60 \<le> fst mid \<and> fst mid \<le> Fin (real (innerWidth win)) - Fin 60 \<and>
           Fin 60 \<le> snd mid \<and> snd mid \<le> Fin (real (innerHeight win)) - Fin 60))"
proof -
  assume a: "blot_x (blot this) = Fin 0" "blot_y (blot this) = Fin 0"
  show ?thesis
    unfolding detour_waypoints [OF a] detour_clamp
    by simp
qed

theorem detour_clamped_witness:
  "waypoints (stype (createMoveSequence \<lparr> innerWidth = 1920, innerHeight = 1080 \<rparr> 0.7
       (Fin 200) (Fin 0) (Fin 50) (Fin 0) (Some (Fin 800))
       (BlotAnimator_new (SDFBlot_new 300 150 (Fin 0) (Fin 0))))) =
     [(Fin 0, Fin 0), (Fin 60, Fin 120), (Fin 200, Fin 0)]"
proof -
  let ?A = "BlotAnimator_new (SDFBlot_new 300 150 (Fin 0) (Fin 0))"
  have a: "blot_x (blot ?A) = Fin 0" "blot_y (blot ?A) = Fin 0"
    by (simp_all add: BlotAnimator_new_def SDFBlot_new_def)
  show ?thesis
    using detour_clamped [OF a, of "\<lparr> innerWidth = 1920, innerHeight = 1080 \<rparr>" "0.7" "Some (Fin 800)"]
    by simp
qed

section \<open>The priority queue\<close>

lemma queueAnimation_busy:
  assumes "isAnimating this"
  shows "queueAnimation s prio now this =
         this\<lparr> animationQueue :=
                 sort_key (\<lambda>a. - priority a) (animationQueue this @ [with_priority s (default_to 0 prio)]) \<rparr>"
  using assms by (simp add: queueAnimation_def Let_def)

lemma priority_with_priority [simp]: "priority (with_priority s p) = p"
  by (simp add: with_priority_def)

lemma two_queued_idle:
  assumes "\<not> isAnimating this" "animationQueue this = []"
  shows "queueAnimation b (Some p) n2 (queueAnimation a (Some p) n1 this) =
         this\<lparr> animationQueue := [with_priority b p],
               currentSequence := Some ((with_priority a p)\<lparr> startTime := Some (Fin (real n1)) \<rparr>),
               isAnimating := True \<rparr>"
  using assms by (simp add: queueAnimation_def playNextAnimation_def Let_def)

lemma ease_one:
  "linear_ease (Fin 1) = Fin 1" "easeInOut (Fin 1) = Fin 1" "easeOut (Fin 1) = Fin 1"
  "easeIn (Fin 1) = Fin 1" "elastic (Fin 1) = Fin 1"
  by (simp_all add: linear_ease_def easeInOut_def easeOut_def easeIn_def elastic_def strict_eq_def)

lemma updateMoveAnimation_one:
  assumes "currentSequence this = Some cs" "stype cs = move wps"
  shows "\<exists>b. updateMoveAnimation (Fin 1) this = Inr (this\<lparr> blot := b \<rparr>)"
proof (cases "2 \<le> length wps")
  case True
  from updateMoveAnimation_end [OF assms True] show ?thesis by blast
next
  case False
  then have "length wps < 2" by simp
  from updateMoveAnimation_short [OF assms this, of "Fin 1"]
  have "updateMoveAnimation (Fin 1) this = Inr (this\<lparr> blot := blot this \<rparr>)" by simp
  then show ?thesis by blast
qed

lemma update_completes:
  assumes c: "currentSequence this = Some cs"
    and st: "startTime cs = Some (Fin (real start))"
    and cb: "complete_by cs start now"
  shows "\<exists>b. update dt now now' this =
           Inr (playNextAnimation now' (this\<lparr> blot := b, currentSequence := None \<rparr>))"
proof -
  from cb obtain d where d: "duration cs = Some (Fin d)" "0 < d" "real start + d \<le> real now"
    and nc: "\<not> continuous_flag cs"
    by (auto simp: complete_by_def split: option.splits jsnum.splits)
  have "1 \<le> (real now - real start) / d" using d by (simp add: field_simps)
  have prog: "Math_min ((Fin (real now) - to_number (startTime cs)) / to_number (duration cs)) (Fin 1) = Fin 1"
    using d \<open>1 \<le> (real now - real start) / d\<close> by (simp add: st min_def)
  obtain ease where e: "easingFunctions (case easing cs of None \<Rightarrow> ''linear''
                                          | Some e \<Rightarrow> if e = [] then ''linear'' else e) = Some ease"
    and e1: "ease (Fin 1) = Fin 1"
    using cb by (auto simp: complete_by_def easingFunctions_def ease_one split: option.splits)
  show ?thesis
  proof (cases "stype cs")
    case (move wps)
    from updateMoveAnimation_one [OF c move] obtain b where
      "updateMoveAnimation (Fin 1) this = Inr (this\<lparr> blot := b \<rparr>)" by blast
    then have "update dt now now' this =
           Inr (playNextAnimation now' (this\<lparr> blot := b, currentSequence := None \<rparr>))"
      unfolding update_def using c nc
      by (simp add: Let_def prog e e1 move)
    then show ?thesis by blast
  next
    case (morph f t)
    have "update dt now now' this =
           Inr (playNextAnimation now'
                 (this\<lparr> blot := (blot this)\<lparr> morphFactor := f + (t - f) * Fin 1 \<rparr>,
                        currentSequence := None \<rparr>))"
      unfolding update_def using c nc
      by (simp add: Let_def prog e e1 morph updateMorphAnimation_def)
    then show ?thesis by blast
  next
    case (breathing i f)
    have "update dt now now' this =
           Inr (playNextAnimation now'
                 (this\<lparr> blot := (blot this)\<lparr> breathingIntensity := Some i \<rparr>,
                        currentSequence := None \<rparr>))"
      unfolding update_def using c nc
      by (simp add: Let_def prog e e1 breathing updateBreathingAnimation_def)
    then show ?thesis by blast
  qed
qed


lemma complete_by_startTime [simp]:
  "complete_by (s\<lparr> startTime := x \<rparr>) start now = complete_by s start now"
  by (simp add: complete_by_def)

lemma complete_by_with_priority [simp]:
  "complete_by (with_priority s p) start now = complete_by s start now"
  by (simp add: complete_by_def with_priority_def)

lemma active_after_update:
  assumes "currentSequence this = Some cs"
    and "startTime cs = Some (Fin (real start))"
    and "complete_by cs start now"
    and "animationQueue this = q # rest"
  shows "\<exists>b. active_after (CallUpdate dt now now' # calls) this =
           Some (q\<lparr> startTime := Some (Fin (real now')) \<rparr>)
           # active_after calls
               (this\<lparr> blot := b, animationQueue := rest,
                      currentSequence := Some (q\<lparr> startTime := Some (Fin (real now')) \<rparr>),
                      isAnimating := True \<rparr>)"
proof -
  from update_completes [OF assms(1-3), of dt now'] obtain b where
    "update dt now now' this =
       Inr (playNextAnimation now' (this\<lparr> blot := b, currentSequence := None \<rparr>))"
    by blast
  then have "active_after (CallUpdate dt now now' # calls) this =
           Some (q\<lparr> startTime := Some (Fin (real now')) \<rparr>)
           # active_after calls
               (this\<lparr> blot := b, animationQueue := rest,
                      currentSequence := Some (q\<lparr> startTime := Some (Fin (real now')) \<rparr>),
                      isAnimating := True \<rparr>)"
    using assms(4) by (simp add: playNextAnimation_def)
  then show ?thesis by blast
qed

lemma active_after_queue:
  "active_after (CallQueueAnimation s prio now # calls) this =
     currentSequence (queueAnimation s prio now this)
     # active_after calls (queueAnimation s prio now this)"
  by simp

lemma drain_three:
  assumes "currentSequence this = Some c0"
    and "startTime c0 = Some (Fin (real st0))"
    and "complete_by c0 st0 u1"
    and "animationQueue this = [qa, qb, qc]"
    and "complete_by qa v1 u2" "complete_by qb v2 u3"
  shows "active_after [CallUpdate dt1 u1 v1, CallUpdate dt2 u2 v2, CallUpdate dt3 u3 v3] this =
         [Some (qa\<lparr> startTime := Some (Fin (real v1)) \<rparr>),
          Some (qb\<lparr> startTime := Some (Fin (real v2)) \<rparr>),
          Some (qc\<lparr> startTime := Some (Fin (real v3)) \<rparr>)]"
proof -
  let ?qa = "qa\<lparr> startTime := Some (Fin (real v1)) \<rparr>"
  let ?qb = "qb\<lparr> startTime := Some (Fin (real v2)) \<rparr>"
  let ?qc = "qc\<lparr> startTime := Some (Fin (real v3)) \<rparr>"
  from active_after_update [OF assms(1-4), of dt1 v1 "[CallUpdate dt2 u2 v2, CallUpdate dt3 u3 v3]"]
  obtain b1 where
    s1: "active_after [CallUpdate dt1 u1 v1, CallUpdate dt2 u2 v2, CallUpdate dt3 u3 v3] this =
           Some ?qa # active_after [CallUpdate dt2 u2 v2, CallUpdate dt3 u3 v3]
               (this\<lparr> blot := b1, animationQueue := [qb, qc],
                      currentSequence := Some ?qa, isAnimating := True \<rparr>)"
    by blast
  let ?A1 = "this\<lparr> blot := b1, animationQueue := [qb, qc],
                      currentSequence := Some ?qa, isAnimating := True \<rparr>"
  have a1: "currentSequence ?A1 = Some ?qa" "startTime ?qa = Some (Fin (real v1))"
    "complete_by ?qa v1 u2" "animationQueue ?A1 = qb # [qc]"
    using assms(5) by simp_all
  from active_after_update [OF a1, of dt2 v2 "[CallUpdate dt3 u3 v3]"]
  obtain b2 where
    s2: "active_after [CallUpdate dt2 u2 v2, CallUpdate dt3 u3 v3] ?A1 =
           Some ?qb # active_after [CallUpdate dt3 u3 v3]
               (?A1\<lparr> blot := b2, animationQueue := [qc],
                      currentSequence := Some ?qb, isAnimating := True \<rparr>)"
    by blast
  let ?A2 = "?A1\<lparr> blot := b2, animationQueue := [qc],
                      currentSequence := Some ?qb, isAnimating := True \<rparr>"
  have a2: "currentSequence ?A2 = Some ?qb" "startTime ?qb = Some (Fin (real v2))"
    "complete_by ?qb v2 u3" "animationQueue ?A2 = qc # []"
    using assms(6) by simp_all
  from active_after_update [OF a2, of dt3 v3 "[]"]
  obtain b3 where
    s3: "active_after [CallUpdate dt3 u3 v3] ?A2 =
           Some ?qc # active_after []
               (?A2\<lparr> blot := b3, animationQueue := [],
                      currentSequence := Some ?qc, isAnimating := True \<rparr>)"
    by blast
  show ?thesis unfolding s1 s2 s3 by simp
qed

lemma drain_two:
  assumes "currentSequence this = Some c0"
    and "startTime c0 = Some (Fin (real st0))"
    and "complete_by c0 st0 u1"
    and "animationQueue this = [qa, qb]"
    and "complete_by qa v1 u2"
  shows "active_after [CallUpdate dt1 u1 v1, CallUpdate dt2 u2 v2] this =
         [Some (qa\<lparr> startTime := Some (Fin (real v1)) \<rparr>),
          Some (qb\<lparr> startTime := Some (Fin (real v2)) \<rparr>)]"
proof -
  let ?qa = "qa\<lparr> startTime := Some (Fin (real v1)) \<rparr>"
  let ?qb = "qb\<lparr> startTime := Some (Fin (real v2)) \<rparr>"
  from active_after_update [OF assms(1-4), of dt1 v1 "[CallUpdate dt2 u2 v2]"]
  obtain b1 where
    s1: "active_after [CallUpdate dt1 u1 v1, CallUpdate dt2 u2 v2] this =
           Some ?qa # active_after [CallUpdate dt2 u2 v2]
               (this\<lparr> blot := b1, animationQueue := [qb],
                      currentSequence := Some ?qa, isAnimating := True \<rparr>)"
    by blast
  let ?A1 = "this\<lparr> blot := b1, animationQueue := [qb],
                      currentSequence := Some ?qa, isAnimating := True \<rparr>"
  have a1: "currentSequence ?A1 = Some ?qa" "startTime ?qa = Some (Fin (real v1))"
    "complete_by ?qa v1 u2" "animationQueue ?A1 = qb # []"
    using assms(5) by simp_all
  from active_after_update [OF a1, of dt2 v2 "[]"]
  obtain b2 where
    s2: "active_after [CallUpdate dt2 u2 v2] ?A1 =
           Some ?qb # active_after []
               (?A1\<lparr> blot := b2, animationQueue := [],
                      currentSequence := Some ?qb, isAnimating := True \<rparr>)"
    by blast
  show ?thesis unfolding s1 s2 by simp
qed

lemma drain_one:
  assumes "currentSequence this = Some c0"
    and "startTime c0 = Some (Fin (real st0))"
    and "complete_by c0 st0 u1"
    and "animationQueue this = [qa]"
  shows "active_after [CallUpdate dt1 u1 v1] this =
         [Some (qa\<lparr> startTime := Some (Fin (real v1)) \<rparr>)]"
proof -
  from active_after_update [OF assms(1-4), of dt1 v1 "[]"]
  obtain b1 where
    s1: "active_after [CallUpdate dt1 u1 v1] this =
           Some (qa\<lparr> startTime := Some (Fin (real v1)) \<rparr>) # active_after []
               (this\<lparr> blot := b1, animationQueue := [],
                      currentSequence := Some (qa\<lparr> startTime := Some (Fin (real v1)) \<rparr>),
                      isAnimating := True \<rparr>)"
    by blast
  show ?thesis unfolding s1 by simp
qed

text \<open>
  C2, amended. On an empty queue, while a sequence is active: enqueuing three sequences
  with priorities 5, 10, 1 in that order and then draining the queue through \<open>update\<close>
  (each call of \<open>update\<close> made when the active sequence is complete) activates them in
  the order 10, 5, 1. Two sequences enqueued with the same priority are activated in the
  order of insertion, whether a sequence is active (both wait in the queue) or not (the
  first becomes active at once).
\<close>

theorem queue_priority_order:
  "animationQueue this = [] \<Longrightarrow>
     (isAnimating this \<and> currentSequence this = Some c0 \<and>
      startTime c0 = Some (Fin (real st0)) \<and> complete_by c0 st0 u1 \<and>
      complete_by s10 v1 u2 \<and> complete_by s5 v2 u3 \<longrightarrow>
        active_after
          [CallQueueAnimation s5 (Some 5) n1, CallQueueAnimation s10 (Some 10) n2,
           CallQueueAnimation s1 (Some 1) n3,
           CallUpdate dt1 u1 v1, CallUpdate dt2 u2 v2, CallUpdate dt3 u3 v3] this
        = [Some c0, Some c0, Some c0,
           Some ((with_priority s10 10)\<lparr> startTime := Some (Fin (real v1)) \<rparr>),
           Some ((with_priority s5 5)\<lparr> startTime := Some (Fin (real v2)) \<rparr>),
           Some ((with_priority s1 1)\<lparr> startTime := Some (Fin (real v3)) \<rparr>)]) \<and>
     (isAnimating this \<and> currentSequence this = Some c0 \<and>
      startTime c0 = Some (Fin (real st0)) \<and> complete_by c0 st0 u1 \<and>
      complete_by a v1 u2 \<longrightarrow>
        active_after
          [CallQueueAnimation a (Some p) n1, CallQueueAnimation b (Some p) n2,
           CallUpdate dt1 u1 v1, CallUpdate dt2 u2 v2] this
        = [Some c0, Some c0,
           Some ((with_priority a p)\<lparr> startTime := Some (Fin (real v1)) \<rparr>),
           Some ((with_priority b p)\<lparr> startTime := Some (Fin (real v2)) \<rparr>)]) \<and>
     (\<not> isAnimating this \<and> complete_by a n1 u1 \<longrightarrow>
        active_after
          [CallQueueAnimation a (Some p) n1, CallQueueAnimation b (Some p) n2,
           CallUpdate dt1 u1 v1] this
        = [Some ((with_priority a p)\<lparr> startTime := Some (Fin (real n1)) \<rparr>),
           Some ((with_priority a p)\<lparr> startTime := Some (Fin (real n1)) \<rparr>),
           Some ((with_priority b p)\<lparr> startTime := Some (Fin (real v1)) \<rparr>)])"
proof -
  assume q: "animationQueue this = []"
  have p1: "active_after
          [CallQueueAnimation s5 (Some 5) n1, CallQueueAnimation s10 (Some 10) n2,
           CallQueueAnimation s1 (Some 1) n3,
           CallUpdate dt1 u1 v1, CallUpdate dt2 u2 v2, CallUpdate dt3 u3 v3] this
        = [Some c0, Some c0, Some c0,
           Some ((with_priority s10 10)\<lparr> startTime := Some (Fin (real v1)) \<rparr>),
           Some ((with_priority s5 5)\<lparr> startTime := Some (Fin (real v2)) \<rparr>),
           Some ((with_priority s1 1)\<lparr> startTime := Some (Fin (real v3)) \<rparr>)]"
    if h: "isAnimating this" "currentSequence this = Some c0"
      "startTime c0 = Some (Fin (real st0))" "complete_by c0 st0 u1"
      "complete_by s10 v1 u2" "complete_by s5 v2 u3"
  proof -
    let ?A = "this\<lparr> animationQueue := [with_priority s10 10, with_priority s5 5, with_priority s1 1] \<rparr>"
    have a: "currentSequence ?A = Some c0"
      "animationQueue ?A = [with_priority s10 10, with_priority s5 5, with_priority s1 1]"
      "complete_by (with_priority s10 10) v1 u2" "complete_by (with_priority s5 5) v2 u3"
      using h by simp_all
    note d = drain_three [OF a(1) h(3) h(4) a(2) a(3) a(4), of dt1 dt2 dt3 v3]
    show ?thesis
      using h(1,2) q d by (simp add: queueAnimation_busy)
  qed
  have p2: "active_after
          [CallQueueAnimation a (Some p) n1, CallQueueAnimation b (Some p) n2,
           CallUpdate dt1 u1 v1, CallUpdate dt2 u2 v2] this
        = [Some c0, Some c0,
           Some ((with_priority a p)\<lparr> startTime := Some (Fin (real v1)) \<rparr>),
           Some ((with_priority b p)\<lparr> startTime := Some (Fin (real v2)) \<rparr>)]"
    if h: "isAnimating this" "currentSequence this = Some c0"
      "startTime c0 = Some (Fin (real st0))" "complete_by c0 st0 u1" "complete_by a v1 u2"
  proof -
    let ?A = "this\<lparr> animationQueue := [with_priority a p, with_priority b p] \<rparr>"
    have a: "currentSequence ?A = Some c0"
      "animationQueue ?A = [with_priority a p, with_priority b p]"
      "complete_by (with_priority a p) v1 u2"
      using h by simp_all
    note d = drain_two [OF a(1) h(3) h(4) a(2) a(3), of dt1 dt2 v2]
    show ?thesis
      using h(1,2) q d by (simp add: queueAnimation_busy)
  qed
  have p3: "active_after
          [CallQueueAnimation a (Some p) n1, CallQueueAnimation b (Some p) n2,
           CallUpdate dt1 u1 v1] this
        = [Some ((with_priority a p)\<lparr> startTime := Some (Fin (real n1)) \<rparr>),
           Some ((with_priority a p)\<lparr> startTime := Some (Fin (real n1)) \<rparr>),
           Some ((with_priority b p)\<lparr> startTime := Some (Fin (real v1)) \<rparr>)]"
    if h: "\<not> isAnimating this" "complete_by a n1 u1"
  proof -
    let ?a = "(with_priority a p)\<lparr> startTime := Some (Fin (real n1)) \<rparr>"
    let ?A = "this\<lparr> animationQueue := [with_priority b p], currentSequence := Some ?a,
                    isAnimating := True \<rparr>"
    have a: "currentSequence ?A = Some ?a" "startTime ?a = Some (Fin (real n1))"
      "complete_by ?a n1 u1" "animationQueue ?A = [with_priority b p]"
      using h by simp_all
    note d = drain_one [OF a, of dt1 v1]
    have q1: "queueAnimation a (Some p) n1 this =
                this\<lparr> animationQueue := [], currentSequence := Some ?a, isAnimating := True \<rparr>"
      using h(1) q by (simp add: queueAnimation_def playNextAnimation_def Let_def)
    have q2: "queueAnimation b (Some p) n2 (queueAnimation a (Some p) n1 this) = ?A"
      using h(1) q by (rule two_queued_idle)
    show ?thesis
      unfolding active_after_queue q2 using d by (simp add: q1)
  qed
  from p1 p2 p3 show ?thesis by blast
qed


text \<open>
  C2, as stated, fails on an idle animator: the first sequence enqueued, of priority 5,
  becomes active at once, and draining through \<open>update\<close> activates the others after
  it: the order is 5, 10, 1.
\<close>

theorem queue_idle_order_counterexample:
  "map (map_option priority)
     (active_after
        [CallQueueAnimation (createMorphSequence ''idle'' ''active'' None) (Some 5) 0,
         CallQueueAnimation (createMorphSequence ''active'' ''idle'' None) (Some 10) 0,
         CallQueueAnimation (createMorphSequence ''idle'' ''menuExpanded'' None) (Some 1) 0,
         CallUpdate (Fin 16) 800 800,
         CallUpdate (Fin 16) 1600 1600]
        (BlotAnimator_new (SDFBlot_new 300 150 (Fin 100) (Fin 100))))
   = [Some 5, Some 5, Some 5, Some 10, Some 1]"
proof -
  let ?s5 = "createMorphSequence ''idle'' ''active'' None"
  let ?s10 = "createMorphSequence ''active'' ''idle'' None"
  let ?s1 = "createMorphSequence ''idle'' ''menuExpanded'' None"
  let ?new = "BlotAnimator_new (SDFBlot_new 300 150 (Fin 100) (Fin 100))"
  let ?c = "(with_priority ?s5 5)\<lparr> startTime := Some (Fin (real (0::nat))) \<rparr>"
  let ?A1 = "?new\<lparr> animationQueue := [], currentSequence := Some ?c, isAnimating := True \<rparr>"
  let ?A3 = "?A1\<lparr> animationQueue := [with_priority ?s10 10, with_priority ?s1 1] \<rparr>"
  have q1: "queueAnimation ?s5 (Some 5) 0 ?new = ?A1"
    by (simp add: queueAnimation_def playNextAnimation_def BlotAnimator_new_def Let_def)
  have q2: "queueAnimation ?s10 (Some 10) 0 ?A1 = ?A1\<lparr> animationQueue := [with_priority ?s10 10] \<rparr>"
    by (simp add: queueAnimation_busy)
  have q3: "queueAnimation ?s1 (Some 1) 0 (?A1\<lparr> animationQueue := [with_priority ?s10 10] \<rparr>) = ?A3"
    by (simp add: queueAnimation_busy)
  have cb: "complete_by ?c 0 800" "complete_by (with_priority ?s10 10) 800 1600"
    by (simp_all add: complete_by_def createMorphSequence_def with_priority_def)
  have a: "currentSequence ?A3 = Some ?c" "startTime ?c = Some (Fin (real (0::nat)))"
    "animationQueue ?A3 = [with_priority ?s10 10, with_priority ?s1 1]"
    by simp_all
  note d = drain_two [OF a(1) a(2) cb(1) a(3) cb(2), of "Fin 16" "Fin 16" 1600]
  show ?thesis
    unfolding active_after_queue q1 q2 q3 d
    by simp
qed

theorem queue_priority_order_witness:
  "map (map_option priority)
     (active_after
        [CallQueueAnimation (createMorphSequence ''idle'' ''menuExpanded'' None) (Some 5) 10,
         CallQueueAnimation (createMorphSequence ''active'' ''idle'' (Some (Fin 600))) (Some 10) 20,
         CallQueueAnimation (createBreathingSequence None None) (Some 1) 30,
         CallUpdate (Fin 16) 800 800,
         CallUpdate (Fin 16) 1400 1400,
         CallUpdate (Fin 16) 2200 2200]
        (queueAnimation (createMorphSequence ''idle'' ''active'' None) None 0
           (BlotAnimator_new (SDFBlot_new 300 150 (Fin 100) (Fin 100)))))
   = [Some 0, Some 0, Some 0, Some 10, Some 5, Some 1] \<and>
   map (map_option stype)
     (active_after
        [CallQueueAnimation (createMorphSequence ''idle'' ''active'' None) (Some 5) 10,
         CallQueueAnimation (createMorphSequence ''active'' ''idle'' None) (Some 5) 20,
         CallUpdate (Fin 16) 810 810]
        (BlotAnimator_new (SDFBlot_new 300 150 (Fin 100) (Fin 100))))
   = [Some (morph (Fin 0) (Fin 0.3)), Some (morph (Fin 0) (Fin 0.3)), Some (morph (Fin 0.3) (Fin 0))]"
proof -
  let ?idle = "BlotAnimator_new (SDFBlot_new 300 150 (Fin 100) (Fin 100))"
  let ?busy = "queueAnimation (createMorphSequence ''idle'' ''active'' None) None 0 ?idle"
  let ?c0 = "(with_priority (createMorphSequence ''idle'' ''active'' None) 0)
               \<lparr> startTime := Some (Fin (real (0::nat))) \<rparr>"
  have b: "animationQueue ?busy = []" "isAnimating ?busy" "currentSequence ?busy = Some ?c0"
    by (simp_all add: queueAnimation_def playNextAnimation_def BlotAnimator_new_def Let_def)
  have c: "startTime ?c0 = Some (Fin (real (0::nat)))" "complete_by ?c0 0 800"
    "complete_by (createMorphSequence ''active'' ''idle'' (Some (Fin 600))) 800 1400"
    "complete_by (createMorphSequence ''idle'' ''menuExpanded'' None) 1400 2200"
    by (simp_all add: complete_by_def createMorphSequence_def with_priority_def)
  have i: "animationQueue ?idle = []" "\<not> isAnimating ?idle"
    "complete_by (createMorphSequence ''idle'' ''active'' None) 10 810"
    by (simp_all add: BlotAnimator_new_def complete_by_def createMorphSequence_def)
  have m: "stype (createMorphSequence ''idle'' ''active'' None) = morph (Fin 0) (Fin 0.3)"
    "stype (createMorphSequence ''active'' ''idle'' None) = morph (Fin 0.3) (Fin 0)"
    by (simp_all add: createMorphSequence_def morphValues_def)
  from queue_priority_order [OF b(1), where ?c0.0 = ?c0 and ?st0.0 = 0 and ?u1.0 = 800
      and ?s10.0 = "createMorphSequence ''active'' ''idle'' (Some (Fin 600))" and ?v1.0 = 800
      and ?u2.0 = 1400
      and ?s5.0 = "createMorphSequence ''idle'' ''menuExpanded'' None" and ?v2.0 = 1400
      and ?u3.0 = 2200 and ?s1.0 = "createBreathingSequence None None" and ?v3.0 = 2200
      and ?n1.0 = 10 and ?n2.0 = 20 and ?n3.0 = 30
      and ?dt1.0 = "Fin 16" and ?dt2.0 = "Fin 16" and ?dt3.0 = "Fin 16"] b(2,3) c
  have w1: "active_after
        [CallQueueAnimation (createMorphSequence ''idle'' ''menuExpanded'' None) (Some 5) 10,
         CallQueueAnimation (createMorphSequence ''active'' ''idle'' (Some (Fin 600))) (Some 10) 20,
         CallQueueAnimation (createBreathingSequence None None) (Some 1) 30,
         CallUpdate (Fin 16) 800 800,
         CallUpdate (Fin 16) 1400 1400,
         CallUpdate (Fin 16) 2200 2200] ?busy
      = [Some ?c0, Some ?c0, Some ?c0,
         Some ((with_priority (createMorphSequence ''active'' ''idle'' (Some (Fin 600))) 10)
                 \<lparr> startTime := Some (Fin (real (800::nat))) \<rparr>),
         Some ((with_priority (createMorphSequence ''idle'' ''menuExpanded'' None) 5)
                 \<lparr> startTime := Some (Fin (real (1400::nat))) \<rparr>),
         Some ((with_priority (createBreathingSequence None None) 1)
                 \<lparr> startTime := Some (Fin (real (2200::nat))) \<rparr>)]"
    by blast
  from queue_priority_order [OF i(1), where a = "createMorphSequence ''idle'' ''active'' None"
      and b = "createMorphSequence ''active'' ''idle'' None" and p = 5
      and ?n1.0 = 10 and ?n2.0 = 20 and ?u1.0 = 810 and ?v1.0 = 810 and ?dt1.0 = "Fin 16"] i(2,3)
  have w2: "active_after
        [CallQueueAnimation (createMorphSequence ''idle'' ''active'' None) (Some 5) 10,
         CallQueueAnimation (createMorphSequence ''active'' ''idle'' None) (Some 5) 20,
         CallUpdate (Fin 16) 810 810] ?idle
      = [Some ((with_priority (createMorphSequence ''idle'' ''active'' None) 5)
                 \<lparr> startTime := Some (Fin (real (10::nat))) \<rparr>),
         Some ((with_priority (createMorphSequence ''idle'' ''active'' None) 5)
                 \<lparr> startTime := Some (Fin (real (10::nat))) \<rparr>),
         Some ((with_priority (createMorphSequence ''active'' ''idle'' None) 5)
                 \<lparr> startTime := Some (Fin (real (810::nat))) \<rparr>)]"
    by blast
  show ?thesis unfolding w1 w2 by (simp add: with_priority_def m)
qed

section \<open>Breathing sequences\<close>

lemma update_breathing:
  assumes "currentSequence this = Some cs" "stype cs = breathing i f"
    and "easing cs = None" "continuous_flag cs"
  shows "update dt now now' this =
         Inr (this\<lparr> blot := (blot this)\<lparr> breathingIntensity := Some i \<rparr> \<rparr>)"
  using assms
  by (simp add: update_def Let_def easingFunctions_def updateBreathingAnimation_def)

lemma breathing_stays:
  assumes "isAnimating this" "currentSequence this = Some cs" "stype cs = breathing i f"
    and "easing cs = None" "continuous_flag cs"
  shows "\<exists>this'. animator_calls calls this = Inr this' \<and>
                 currentSequence this' = Some cs \<and> isAnimating this'"
  using assms
proof (induction calls arbitrary: this)
  case Nil
  then show ?case by simp
next
  case (Cons c calls)
  show ?case
  proof (cases c)
    case (CallUpdate dt now now')
    let ?next = "this\<lparr> blot := (blot this)\<lparr> breathingIntensity := Some i \<rparr> \<rparr>"
    have u: "update dt now now' this = Inr ?next"
      by (rule update_breathing [OF Cons.prems(2-5)])
    have "\<exists>this'. animator_calls calls ?next = Inr this' \<and>
                 currentSequence this' = Some cs \<and> isAnimating this'"
      using Cons.prems by (intro Cons.IH) simp_all
    then show ?thesis by (simp add: CallUpdate u)
  next
    case (CallQueueAnimation s prio now)
    let ?next = "queueAnimation s prio now this"
    have q: "isAnimating ?next" "currentSequence ?next = Some cs"
      using Cons.prems by (simp_all add: queueAnimation_def Let_def)
    have "\<exists>this'. animator_calls calls ?next = Inr this' \<and>
                 currentSequence this' = Some cs \<and> isAnimating this'"
      using q Cons.prems by (intro Cons.IH) simp_all
    then show ?thesis by (simp add: CallQueueAnimation)
  qed
qed

text \<open>
  C9. Once a breathing sequence as \<open>createBreathingSequence\<close> makes it (marked
  continuous) has been made the active sequence by \<open>playNextAnimation\<close>, no sequence of
  calls of \<open>update\<close> and \<open>queueAnimation\<close> throws, retires it or makes another
  sequence active, whatever the priorities; after \<open>emergencyStop\<close> nothing is active and
  the next sequence enqueued becomes active.
\<close>

theorem continuous_sequence_stays_active:
  "animationQueue this = b # rest \<Longrightarrow> stype b = breathing i f \<Longrightarrow>
   easing b = None \<Longrightarrow> continuous_flag b \<Longrightarrow>
     (\<exists>this'. animator_calls calls (playNextAnimation now this) = Inr this' \<and>
        currentSequence this' = Some (b\<lparr> startTime := Some (Fin (real now)) \<rparr>) \<and>
        currentSequence (emergencyStop this') = None \<and>
        currentSequence (queueAnimation s prio now2 (emergencyStop this')) =
          Some ((with_priority s (default_to 0 prio))\<lparr> startTime := Some (Fin (real now2)) \<rparr>))"
proof -
  assume a: "animationQueue this = b # rest" "stype b = breathing i f"
    "easing b = None" "continuous_flag b"
  let ?b = "b\<lparr> startTime := Some (Fin (real now)) \<rparr>"
  let ?start = "playNextAnimation now this"
  have s: "isAnimating ?start" "currentSequence ?start = Some ?b"
    using a by (simp_all add: playNextAnimation_def)
  have b: "stype ?b = breathing i f" "easing ?b = None" "continuous_flag ?b"
    using a by simp_all
  from breathing_stays [OF s b] obtain this' where
    t: "animator_calls calls ?start = Inr this'" "currentSequence this' = Some ?b"
    by blast
  have "currentSequence (emergencyStop this') = None"
    by (simp add: emergencyStop_def)
  moreover have "currentSequence (queueAnimation s prio now2 (emergencyStop this')) =
          Some ((with_priority s (default_to 0 prio))\<lparr> startTime := Some (Fin (real now2)) \<rparr>)"
    by (simp add: emergencyStop_def queueAnimation_def playNextAnimation_def Let_def)
  ultimately show ?thesis using t by blast
qed


theorem continuous_sequence_stays_active_witness:
  "\<exists>this'.
     animator_calls
       [CallUpdate (Fin 16) 5000 5000,
        CallQueueAnimation (createMorphSequence ''idle'' ''active'' None) (Some 10) 5001,
        CallUpdate (Fin 16) 9000 9000]
       (playNextAnimation 0
          ((BlotAnimator_new (SDFBlot_new 300 150 (Fin 100) (Fin 100)))
             \<lparr> animationQueue := [with_priority (createBreathingSequence None None) 1] \<rparr>))
       = Inr this' \<and>
     map_option stype (currentSequence this') = Some (breathing (Fin 0.05) (Fin 0.8))"
proof -
  let ?b = "with_priority (createBreathingSequence None None) 1"
  let ?A = "(BlotAnimator_new (SDFBlot_new 300 150 (Fin 100) (Fin 100)))\<lparr> animationQueue := [?b] \<rparr>"
  have a: "animationQueue ?A = ?b # []" "stype ?b = breathing (Fin 0.05) (Fin 0.8)"
    "easing ?b = None" "continuous_flag ?b"
    by (simp_all add: with_priority_def createBreathingSequence_def)
  from continuous_sequence_stays_active [OF a, where now = 0 and calls =
      "[CallUpdate (Fin 16) 5000 5000,
        CallQueueAnimation (createMorphSequence ''idle'' ''active'' None) (Some 10) 5001,
        CallUpdate (Fin 16) 9000 9000]"]
  obtain this' where
    "animator_calls
       [CallUpdate (Fin 16) 5000 5000,
        CallQueueAnimation (createMorphSequence ''idle'' ''active'' None) (Some 10) 5001,
        CallUpdate (Fin 16) 9000 9000]
       (playNextAnimation 0 ?A) = Inr this'"
    "currentSequence this' = Some (?b\<lparr> startTime := Some (Fin (real (0::nat))) \<rparr>)"
    by blast
  then show ?thesis
    by (intro exI [of _ this']) (simp add: with_priority_def createBreathingSequence_def)
qed

section \<open>Breathing does not reach the pixels\<close>

lemma createBlotSDF_breathingIntensity [simp]:
  "createBlotSDF px py t mf (this\<lparr> breathingIntensity := v \<rparr>) = createBlotSDF px py t mf this"
  by (simp add: createBlotSDF_def Let_def)

lemma renderPixel_breathingIntensity [simp]:
  "renderPixel (this\<lparr> breathingIntensity := v \<rparr>) px py = renderPixel this px py"
  by (simp add: renderPixel_def)

lemma renderBlot_breathingIntensity [simp]:
  "renderBlot (this\<lparr> breathingIntensity := v \<rparr>) = renderBlot this"
  by (simp add: renderBlot_def)

lemma SDFBlot_update_breathingIntensity:
  "SDFBlot_update dt (this\<lparr> breathingIntensity := v \<rparr>) =
   (SDFBlot_update dt this)\<lparr> breathingIntensity := v \<rparr>"
  by (simp add: SDFBlot_update_def Let_def)

lemma frames_breathing:
  assumes "currentSequence this = Some cs" "stype cs = breathing i f"
    and "easing cs = None" "continuous_flag cs"
    and "currentSequence that = None"
    and "(blot this)\<lparr> breathingIntensity := None \<rparr> = (blot that)\<lparr> breathingIntensity := None \<rparr>"
  shows "\<exists>this' that'. frames fs this = Inr this' \<and> frames fs that = Inr that' \<and>
           (blot this')\<lparr> breathingIntensity := None \<rparr> = (blot that')\<lparr> breathingIntensity := None \<rparr>"
  using assms
proof (induction fs arbitrary: this that)
  case Nil
  then show ?case by simp
next
  case (Cons fr fs)
  obtain dt now now' where fr: "fr = (dt, now, now')" by (cases fr)
  let ?this1 = "this\<lparr> blot := SDFBlot_update dt ((blot this)\<lparr> breathingIntensity := Some i \<rparr>) \<rparr>"
  let ?that1 = "that\<lparr> blot := SDFBlot_update dt (blot that) \<rparr>"
  have f1: "frame fr this = Inr ?this1"
    by (simp add: fr update_breathing [OF Cons.prems(1-4)])
  have f2: "frame fr that = Inr ?that1"
    using Cons.prems(5) by (simp add: fr update_def)
  have "(SDFBlot_update dt ((blot this)\<lparr> breathingIntensity := None \<rparr>))
        = (SDFBlot_update dt ((blot that)\<lparr> breathingIntensity := None \<rparr>))"
    using Cons.prems(6) by simp
  then have eq: "(blot ?this1)\<lparr> breathingIntensity := None \<rparr> = (blot ?that1)\<lparr> breathingIntensity := None \<rparr>"
    by (simp add: SDFBlot_update_breathingIntensity)
  have "\<exists>this' that'. frames fs ?this1 = Inr this' \<and> frames fs ?that1 = Inr that' \<and>
           (blot this')\<lparr> breathingIntensity := None \<rparr> = (blot that')\<lparr> breathingIntensity := None \<rparr>"
    using Cons.prems(1-5) eq by (intro Cons.IH) simp_all
  then show ?case by (simp add: f1 f2)
qed

text \<open>
  C10. A tick of an active breathing sequence writes only \<open>breathingIntensity\<close> of the
  blot; neither the field evaluator nor the rasteriser depends on that property; so after
  any frames with the breathing sequence active, the rendered pixels are those of the same
  frames with no sequence active and the same blot.
\<close>

theorem breathing_invisible:
  "currentSequence this = Some cs \<Longrightarrow> stype cs = breathing i f \<Longrightarrow>
   easing cs = None \<Longrightarrow> continuous_flag cs \<Longrightarrow>
   currentSequence that = None \<Longrightarrow> blot that = blot this \<Longrightarrow>
     update dt now now' this = Inr (this\<lparr> blot := (blot this)\<lparr> breathingIntensity := Some i \<rparr> \<rparr>) \<and>
     (\<forall>px py t mf v. createBlotSDF px py t mf ((blot this)\<lparr> breathingIntensity := v \<rparr>)
                       = createBlotSDF px py t mf (blot this)) \<and>
     (\<forall>v. renderBlot ((blot this)\<lparr> breathingIntensity := v \<rparr>) = renderBlot (blot this)) \<and>
     (\<exists>this' that'. frames fs this = Inr this' \<and> frames fs that = Inr that' \<and>
        renderBlot (blot this') = renderBlot (blot that'))"
proof -
  assume a: "currentSequence this = Some cs" "stype cs = breathing i f"
    "easing cs = None" "continuous_flag cs"
    and b: "currentSequence that = None" and c: "blot that = blot this"
  have eq: "(blot this)\<lparr> breathingIntensity := None \<rparr> = (blot that)\<lparr> breathingIntensity := None \<rparr>"
    using c by simp
  from frames_breathing [OF a b eq, of fs] obtain this' that' where
    f: "frames fs this = Inr this'" "frames fs that = Inr that'"
       "(blot this')\<lparr> breathingIntensity := None \<rparr> = (blot that')\<lparr> breathingIntensity := None \<rparr>"
    by blast
  have "renderBlot (blot this') = renderBlot ((blot this')\<lparr> breathingIntensity := None \<rparr>)"
    by simp
  also have "\<dots> = renderBlot ((blot that')\<lparr> breathingIntensity := None \<rparr>)"
    using f(3) by simp
  also have "\<dots> = renderBlot (blot that')" by simp
  finally have r: "renderBlot (blot this') = renderBlot (blot that')" .
  show ?thesis
    using update_breathing [OF a, of dt now now'] f(1,2) r by simp
qed


theorem breathing_invisible_witness:
  "\<exists>this' that'.
     frames [(Fin 16, 16, 16), (Fin 16, 32, 32)]
       (playNextAnimation 0
          ((BlotAnimator_new (SDFBlot_new 300 150 (Fin 100) (Fin 100)))
             \<lparr> animationQueue := [with_priority (createBreathingSequence None None) 1] \<rparr>))
       = Inr this' \<and>
     frames [(Fin 16, 16, 16), (Fin 16, 32, 32)]
       (BlotAnimator_new (SDFBlot_new 300 150 (Fin 100) (Fin 100))) = Inr that' \<and>
     renderBlot (blot this') = renderBlot (blot that')"
proof -
  let ?b = "with_priority (createBreathingSequence None None) 1"
  let ?A = "playNextAnimation 0
              ((BlotAnimator_new (SDFBlot_new 300 150 (Fin 100) (Fin 100)))\<lparr> animationQueue := [?b] \<rparr>)"
  let ?B = "BlotAnimator_new (SDFBlot_new 300 150 (Fin 100) (Fin 100))"
  let ?cs = "?b\<lparr> startTime := Some (Fin (real (0::nat))) \<rparr>"
  have a: "currentSequence ?A = Some ?cs" "stype ?cs = breathing (Fin 0.05) (Fin 0.8)"
    "easing ?cs = None" "continuous_flag ?cs"
    by (simp_all add: playNextAnimation_def with_priority_def createBreathingSequence_def)
  have b: "currentSequence ?B = None" "blot ?B = blot ?A"
    by (simp_all add: playNextAnimation_def BlotAnimator_new_def)
  from breathing_invisible [OF a b, where fs = "[(Fin 16, 16, 16), (Fin 16, 32, 32)]"]
  show ?thesis by blast
qed

section \<open>The transition to the expanded menu\<close>

lemma sqrt_20000: "\<not> sqrt 20000 < (100::real)"
proof -
  have "(100::real)\<^sup>2 \<le> 20000" by simp
  then have "100 \<le> sqrt 20000" by (rule real_le_rsqrt)
  then show ?thesis by simp
qed

lemma transition_menuExpanded:
  "transitionToState win rnd t0 ''menuExpanded'' (Some (Fin 300)) (Some (Fin 300)) (Fin 0) (Fin 0)
     (BlotAnimator_new (SDFBlot_new w h (Fin 100) (Fin 100))) =
   \<lparr> blot = (SDFBlot_new w h (Fin 100) (Fin 100))\<lparr> state := ''menuExpanded'' \<rparr>,
     animationQueue =
       [\<lparr> stype = move [(Fin 100, Fin 100), (Fin 300, Fin 300)], duration = Some (Fin 800),
           easing = Some ''easeInOut'', startTime = Some (Fin 0), continuous_flag = False, priority = 9 \<rparr>,
        \<lparr> stype = breathing (Fin 0.03) (Fin 0.6), duration = None,
           easing = None, startTime = None, continuous_flag = True, priority = 1 \<rparr>],
     isAnimating = True,
     currentSequence =
       Some \<lparr> stype = morph (Fin 0) (Fin 1), duration = Some (Fin 600),
              easing = Some ''easeOut'', startTime = Some (Fin (real t0)), continuous_flag = False,
              priority = 10 \<rparr> \<rparr>"
  by (simp add: transitionToState_def Let_def createMorphSequence_def createMoveSequence_def
      createBreathingSequence_def queueAnimation_def playNextAnimation_def with_priority_def
      BlotAnimator_new_def SDFBlot_new_def morphValues_def animationPresets_def setState_def
      sqrt_20000)


lemma SDFBlot_new_fields:
  "morphFactor (SDFBlot_new w h x y) = Fin 0"
  "targetMorphFactor (SDFBlot_new w h x y) = Fin 0"
  "blot_x (SDFBlot_new w h x y) = x" "blot_y (SDFBlot_new w h x y) = y"
  "targetX (SDFBlot_new w h x y) = x" "targetY (SDFBlot_new w h x y) = y"
  by (simp_all add: SDFBlot_new_def)

lemma frame_morph_done:
  assumes "currentSequence this =
             Some \<lparr> stype = morph (Fin 0) (Fin 1), duration = Some (Fin 600),
                    easing = Some ''easeOut'', startTime = Some (Fin (real t0)), continuous_flag = False,
                    priority = 10 \<rparr>"
  shows "update dt (t0 + 600 + d) now' this =
         Inr (playNextAnimation now'
               (this\<lparr> blot := (blot this)\<lparr> morphFactor := Fin 1 \<rparr>, currentSequence := None \<rparr>))"
proof -
  have "(600 + real d) / 600 = 1 + real d / 600" by (simp add: field_simps)
  then have p: "min ((600 + real d) / 600) 1 = 1" by simp
  show ?thesis
    using assms
    by (simp add: update_def Let_def easingFunctions_def easeOut_def updateMorphAnimation_def p)
qed

lemma frame_move_done:
  assumes "currentSequence this =
             Some \<lparr> stype = move [(Fin 100, Fin 100), (Fin 300, Fin 300)], duration = Some (Fin 800),
                    easing = Some ''easeInOut'', startTime = Some (Fin (real t1)), continuous_flag = False,
                    priority = 9 \<rparr>"
  shows "update dt (t1 + 800 + d) now' this =
         Inr (playNextAnimation now'
               (this\<lparr> blot := (blot this)\<lparr> targetX := Fin 300, targetY := Fin 300 \<rparr>,
                      currentSequence := None \<rparr>))"
proof -
  have "(800 + real d) / 800 = 1 + real d / 800" by (simp add: field_simps)
  then have p: "min ((800 + real d) / 800) 1 = 1" by simp
  show ?thesis
    using assms
    by (simp add: update_def Let_def easingFunctions_def easeInOut_def updateMoveAnimation_def
        moveTo_def p)
qed


lemma frames_breathing_decay:
  assumes "currentSequence this = Some cs" "stype cs = breathing i f"
    and "easing cs = None" "continuous_flag cs"
    and "morphFactor (blot this) = Fin m" "targetMorphFactor (blot this) = Fin 0"
    and "blot_x (blot this) = Fin x" "targetX (blot this) = Fin tx"
    and "blot_y (blot this) = Fin y" "targetY (blot this) = Fin ty"
  shows "\<exists>this'. frames fs this = Inr this' \<and>
           morphFactor (blot this') = Fin (m * 0.9 ^ length fs) \<and>
           targetMorphFactor (blot this') = Fin 0 \<and>
           blot_x (blot this') = Fin (tx - (tx - x) * 0.92 ^ length fs) \<and>
           targetX (blot this') = Fin tx \<and>
           blot_y (blot this') = Fin (ty - (ty - y) * 0.92 ^ length fs) \<and>
           targetY (blot this') = Fin ty"
  using assms
proof (induction fs arbitrary: this m x y)
  case Nil
  then show ?case by simp
next
  case (Cons fr fs)
  obtain dt now now' where fr: "fr = (dt, now, now')" by (cases fr)
  let ?next = "this\<lparr> blot := SDFBlot_update dt ((blot this)\<lparr> breathingIntensity := Some i \<rparr>) \<rparr>"
  have f: "frame fr this = Inr ?next"
    by (simp add: fr update_breathing [OF Cons.prems(1-4)])
  have n: "currentSequence ?next = Some cs"
    "morphFactor (blot ?next) = Fin (m * 0.9)" "targetMorphFactor (blot ?next) = Fin 0"
    "blot_x (blot ?next) = Fin (x + (tx - x) * 0.08)" "targetX (blot ?next) = Fin tx"
    "blot_y (blot ?next) = Fin (y + (ty - y) * 0.08)" "targetY (blot ?next) = Fin ty"
    using Cons.prems by (simp_all add: SDFBlot_update_def Let_def algebra_simps)
  from Cons.IH [OF n(1) Cons.prems(2-4) n(2-7)] obtain this' where
    t: "frames fs ?next = Inr this'"
       "morphFactor (blot this') = Fin (m * 0.9 * 0.9 ^ length fs)"
       "targetMorphFactor (blot this') = Fin 0"
       "blot_x (blot this') = Fin (tx - (tx - (x + (tx - x) * 0.08)) * 0.92 ^ length fs)"
       "targetX (blot this') = Fin tx"
       "blot_y (blot this') = Fin (ty - (ty - (y + (ty - y) * 0.08)) * 0.92 ^ length fs)"
       "targetY (blot this') = Fin ty"
    by blast
  have ex: "tx - (x + (tx - x) * 0.08) = (tx - x) * 0.92" "ty - (y + (ty - y) * 0.08) = (ty - y) * 0.92"
    by (simp_all add: field_simps)
  have "frames (fr # fs) this = Inr this'" by (simp add: f t(1))
  moreover have "morphFactor (blot this') = Fin (m * 0.9 ^ length (fr # fs))"
    by (simp add: t(2))
  moreover have "blot_x (blot this') = Fin (tx - (tx - x) * 0.92 ^ length (fr # fs))"
    unfolding t(4) ex by simp
  moreover have "blot_y (blot this') = Fin (ty - (ty - y) * 0.92 ^ length (fr # fs))"
    unfolding t(6) ex by simp
  ultimately show ?case using t(3,5,7) by blast
qed

lemma update_morph_running:
  assumes "currentSequence this =
             Some \<lparr> stype = morph (Fin 0) (Fin 1), duration = Some (Fin 600),
                    easing = Some ''easeOut'', startTime = Some (Fin (real t0)), continuous_flag = False,
                    priority = 10 \<rparr>"
    and "now < t0 + 600"
  shows "\<exists>v. update dt now now' this = Inr (this\<lparr> blot := (blot this)\<lparr> morphFactor := v \<rparr> \<rparr>)"
proof -
  have "real now - real t0 < 600" using assms(2) by linarith
  then have p: "\<not> 1 \<le> min ((real now - real t0) / 600) 1" by simp
  show ?thesis
    using assms(1) p
    by (simp add: update_def Let_def easingFunctions_def updateMorphAnimation_def) blast
qed

lemma easeInOut_nonneg:
  assumes "p \<le> 1"
  shows "\<exists>e. easeInOut (Fin p) = Fin e \<and> 0 \<le> e"
proof (cases "p < 0.5")
  case True
  have "0 \<le> 2 * p * p" by simp
  then show ?thesis using True by (simp add: easeInOut_def)
next
  case False
  then have "0 \<le> 1 - p" "1 - p \<le> 1 / 2" using assms by simp_all
  then have "(1 - p) * (1 - p) \<le> (1 / 2) * (1 / 2)" by (intro mult_mono) simp_all
  then have "0 \<le> - 1 + (4 - 2 * p) * p" by (simp add: algebra_simps)
  then show ?thesis using False by (simp add: easeInOut_def)
qed

lemma updateMoveAnimation_two:
  assumes "currentSequence this = Some cs"
    and "stype cs = move [(Fin 100, Fin 100), (Fin 300, Fin 300)]"
    and "0 \<le> e"
  shows "\<exists>a b. updateMoveAnimation (Fin e) this =
           Inr (this\<lparr> blot := (blot this)\<lparr> targetX := Fin a, targetY := Fin b \<rparr> \<rparr>)"
proof (cases "1 \<le> e")
  case True
  then have "1 \<le> \<lfloor>e\<rfloor>" by linarith
  then show ?thesis
    using assms by (simp add: updateMoveAnimation_def Let_def moveTo_def) blast
next
  case False
  then have f: "\<lfloor>e\<rfloor> = 0" using assms(3) by linarith
  show ?thesis
    using assms f by (simp add: updateMoveAnimation_def Let_def moveTo_def) blast
qed

lemma update_move_running:
  assumes "currentSequence this =
             Some \<lparr> stype = move [(Fin 100, Fin 100), (Fin 300, Fin 300)], duration = Some (Fin 800),
                    easing = Some ''easeInOut'', startTime = Some (Fin (real t1)), continuous_flag = False,
                    priority = 9 \<rparr>"
    and "now < t1 + 800"
  shows "\<exists>a b. update dt now now' this =
           Inr (this\<lparr> blot := (blot this)\<lparr> targetX := Fin a, targetY := Fin b \<rparr> \<rparr>)"
proof -
  let ?p = "(real now - real t1) / 800"
  have lt: "real now - real t1 < 800" using assms(2) by linarith
  then have p: "?p < 1" by simp
  then have "?p \<le> 1" by simp
  from easeInOut_nonneg [OF this] obtain e where e: "easeInOut (Fin ?p) = Fin e" "0 \<le> e"
    by blast
  from updateMoveAnimation_two [OF assms(1) _ e(2)] obtain a b where
    m: "updateMoveAnimation (Fin e) this =
           Inr (this\<lparr> blot := (blot this)\<lparr> targetX := Fin a, targetY := Fin b \<rparr> \<rparr>)"
    by auto
  have "update dt now now' this =
           Inr (this\<lparr> blot := (blot this)\<lparr> targetX := Fin a, targetY := Fin b \<rparr> \<rparr>)"
    using assms(1) lt
    by (simp add: update_def Let_def easingFunctions_def e(1) m)
  then show ?thesis by blast
qed


lemma morph_phase:
  assumes "currentSequence this =
             Some \<lparr> stype = morph (Fin 0) (Fin 1), duration = Some (Fin 600),
                    easing = Some ''easeOut'', startTime = Some (Fin (real t0)), continuous_flag = False,
                    priority = 10 \<rparr>"
    and "\<forall>f\<in>set pre. fst (snd f) < t0 + 600"
    and "targetMorphFactor (blot this) = Fin 0"
    and "blot_x (blot this) = Fin 100" "targetX (blot this) = Fin 100"
    and "blot_y (blot this) = Fin 100" "targetY (blot this) = Fin 100"
  shows "\<exists>this'. frames pre this = Inr this' \<and>
           currentSequence this' = currentSequence this \<and>
           animationQueue this' = animationQueue this \<and>
           targetMorphFactor (blot this') = Fin 0 \<and>
           blot_x (blot this') = Fin 100 \<and> targetX (blot this') = Fin 100 \<and>
           blot_y (blot this') = Fin 100 \<and> targetY (blot this') = Fin 100"
  using assms
proof (induction pre arbitrary: this)
  case Nil
  then show ?case by simp
next
  case (Cons fr pre)
  obtain dt now now' where fr: "fr = (dt, now, now')" by (cases fr)
  have "now < t0 + 600" using Cons.prems(2) by (simp add: fr)
  from update_morph_running [OF Cons.prems(1) this] obtain v where
    u: "update dt now now' this = Inr (this\<lparr> blot := (blot this)\<lparr> morphFactor := v \<rparr> \<rparr>)"
    by blast
  let ?next = "this\<lparr> blot := SDFBlot_update dt ((blot this)\<lparr> morphFactor := v \<rparr>) \<rparr>"
  have f: "frame fr this = Inr ?next" by (simp add: fr u)
  have n: "currentSequence ?next = currentSequence this" "animationQueue ?next = animationQueue this"
    "targetMorphFactor (blot ?next) = Fin 0"
    "blot_x (blot ?next) = Fin 100" "targetX (blot ?next) = Fin 100"
    "blot_y (blot ?next) = Fin 100" "targetY (blot ?next) = Fin 100"
    using Cons.prems by (simp_all add: SDFBlot_update_def Let_def)
  have rest: "\<forall>f\<in>set pre. fst (snd f) < t0 + 600" using Cons.prems(2) by simp
  from Cons.IH [OF Cons.prems(1) [folded n(1)] rest n(3-7)] obtain this' where
    "frames pre ?next = Inr this'"
    "currentSequence this' = currentSequence ?next" "animationQueue this' = animationQueue ?next"
    "targetMorphFactor (blot this') = Fin 0"
    "blot_x (blot this') = Fin 100" "targetX (blot this') = Fin 100"
    "blot_y (blot this') = Fin 100" "targetY (blot this') = Fin 100"
    by blast
  then show ?case using f n(1,2) by (intro exI [of _ this']) simp
qed

lemma move_phase:
  assumes "currentSequence this =
             Some \<lparr> stype = move [(Fin 100, Fin 100), (Fin 300, Fin 300)], duration = Some (Fin 800),
                    easing = Some ''easeInOut'', startTime = Some (Fin (real t1)), continuous_flag = False,
                    priority = 9 \<rparr>"
    and "\<forall>f\<in>set mid. fst (snd f) < t1 + 800"
    and "morphFactor (blot this) = Fin m" "targetMorphFactor (blot this) = Fin 0"
    and "blot_x (blot this) = Fin x" "targetX (blot this) = Fin tx"
    and "blot_y (blot this) = Fin y" "targetY (blot this) = Fin ty"
  shows "\<exists>this' x' y' tx' ty'. frames mid this = Inr this' \<and>
           currentSequence this' = currentSequence this \<and>
           animationQueue this' = animationQueue this \<and>
           morphFactor (blot this') = Fin (m * 0.9 ^ length mid) \<and>
           targetMorphFactor (blot this') = Fin 0 \<and>
           blot_x (blot this') = Fin x' \<and> targetX (blot this') = Fin tx' \<and>
           blot_y (blot this') = Fin y' \<and> targetY (blot this') = Fin ty'"
  using assms
proof (induction mid arbitrary: this m x y tx ty)
  case Nil
  then show ?case by simp
next
  case (Cons fr mid)
  obtain dt now now' where fr: "fr = (dt, now, now')" by (cases fr)
  have "now < t1 + 800" using Cons.prems(2) by (simp add: fr)
  from update_move_running [OF Cons.prems(1) this] obtain a b where
    u: "update dt now now' this =
          Inr (this\<lparr> blot := (blot this)\<lparr> targetX := Fin a, targetY := Fin b \<rparr> \<rparr>)"
    by blast
  let ?next = "this\<lparr> blot := SDFBlot_update dt ((blot this)\<lparr> targetX := Fin a, targetY := Fin b \<rparr>) \<rparr>"
  have f: "frame fr this = Inr ?next" by (simp add: fr u)
  have n: "currentSequence ?next = currentSequence this" "animationQueue ?next = animationQueue this"
    "morphFactor (blot ?next) = Fin (m * 0.9)" "targetMorphFactor (blot ?next) = Fin 0"
    "blot_x (blot ?next) = Fin (x + (a - x) * 0.08)" "targetX (blot ?next) = Fin a"
    "blot_y (blot ?next) = Fin (y + (b - y) * 0.08)" "targetY (blot ?next) = Fin b"
    using Cons.prems by (simp_all add: SDFBlot_update_def Let_def algebra_simps)
  have rest: "\<forall>f\<in>set mid. fst (snd f) < t1 + 800" using Cons.prems(2) by simp
  from Cons.IH [OF Cons.prems(1) [folded n(1)] rest n(3-8)] obtain this' x' y' tx' ty' where
    "frames mid ?next = Inr this'"
    "currentSequence this' = currentSequence ?next" "animationQueue this' = animationQueue ?next"
    "morphFactor (blot this') = Fin (m * 0.9 * 0.9 ^ length mid)"
    "targetMorphFactor (blot this') = Fin 0"
    "blot_x (blot this') = Fin x'" "targetX (blot this') = Fin tx'"
    "blot_y (blot this') = Fin y'" "targetY (blot this') = Fin ty'"
    by blast
  then show ?case using f n(1,2)
    by (intro exI [of _ this'] exI [of _ x'] exI [of _ y'] exI [of _ tx'] exI [of _ ty']) simp
qed


text \<open>
  C1, on the code. A blot is created at \<open>(100, 100)\<close> (morph factor 0, mode \<open>idle\<close>) and
  \<open>transitionToState("menuExpanded", 300, 300, 0, 0)\<close> is called at time \<open>t0\<close>. Frames
  follow: any frames \<open>pre\<close> less than 600 ms after \<open>t0\<close>, the frame that completes the
  morph sequence and starts the move sequence at \<open>t1\<close>, any frames \<open>mid\<close> less than
  800 ms after \<open>t1\<close>, the frame that completes the move sequence, and any frames \<open>fs\<close>.
  No frame throws. The target position is \<open>(300, 300)\<close> and the position approaches it;
  but the target morph factor is still 0, since \<open>setState\<close> has no case
  \<open>menuExpanded\<close>, and the morph factor is 0.9 to the power of the number of frames
  from the completion of the morph sequence on: it is at most 0.81 and tends to 0, not
  to 1.
\<close>

theorem transition_menuExpanded_morph_decays:
  "\<forall>f\<in>set pre. fst (snd f) < t0 + 600 \<Longrightarrow> \<forall>f\<in>set mid. fst (snd f) < t1 + 800 \<Longrightarrow>
   \<exists>this' cx cy.
     frames (pre @ (dt1, t0 + 600 + d1, t1) # mid @ (dt2, t1 + 800 + d2, t2) # fs)
       (transitionToState win rnd t0 ''menuExpanded'' (Some (Fin 300)) (Some (Fin 300)) (Fin 0) (Fin 0)
          (BlotAnimator_new (SDFBlot_new w h (Fin 100) (Fin 100)))) = Inr this' \<and>
     targetMorphFactor (blot this') = Fin 0 \<and>
     morphFactor (blot this') = Fin (0.9 ^ (length mid + length fs + 2)) \<and>
     morphFactor (blot this') \<le> Fin 0.81 \<and>
     targetX (blot this') = Fin 300 \<and> targetY (blot this') = Fin 300 \<and>
     blot_x (blot this') = Fin (300 - cx * 0.92 ^ length fs) \<and>
     blot_y (blot this') = Fin (300 - cy * 0.92 ^ length fs)"
proof -
  assume pre: "\<forall>f\<in>set pre. fst (snd f) < t0 + 600" and mid: "\<forall>f\<in>set mid. fst (snd f) < t1 + 800"
  let ?A1 = "transitionToState win rnd t0 ''menuExpanded'' (Some (Fin 300)) (Some (Fin 300)) (Fin 0) (Fin 0)
               (BlotAnimator_new (SDFBlot_new w h (Fin 100) (Fin 100)))"
  let ?M = "\<lparr> stype = morph (Fin 0) (Fin 1), duration = Some (Fin 600),
              easing = Some ''easeOut'', startTime = Some (Fin (real t0)), continuous_flag = False,
              priority = 10 \<rparr>"
  let ?V = "\<lparr> stype = move [(Fin 100, Fin 100), (Fin 300, Fin 300)], duration = Some (Fin 800),
              easing = Some ''easeInOut'', startTime = Some (Fin 0), continuous_flag = False,
              priority = 9 \<rparr>"
  let ?B = "\<lparr> stype = breathing (Fin 0.03) (Fin 0.6), duration = None,
              easing = None, startTime = None, continuous_flag = True, priority = 1 \<rparr>"
  have c1: "currentSequence ?A1 = Some ?M" and q1: "animationQueue ?A1 = [?V, ?B]"
    and b1: "targetMorphFactor (blot ?A1) = Fin 0"
      "blot_x (blot ?A1) = Fin 100" "targetX (blot ?A1) = Fin 100"
      "blot_y (blot ?A1) = Fin 100" "targetY (blot ?A1) = Fin 100"
    by (simp_all add: transition_menuExpanded SDFBlot_new_fields)
  from morph_phase [OF c1 pre b1] obtain P where
    P: "frames pre ?A1 = Inr P" "currentSequence P = Some ?M" "animationQueue P = [?V, ?B]"
       "targetMorphFactor (blot P) = Fin 0"
       "blot_x (blot P) = Fin 100" "targetX (blot P) = Fin 100"
       "blot_y (blot P) = Fin 100" "targetY (blot P) = Fin 100"
    unfolding c1 q1 by blast
  define A2 where "A2 = playNextAnimation t1
       (P\<lparr> blot := (blot P)\<lparr> morphFactor := Fin 1 \<rparr>, currentSequence := None \<rparr>)"
  define B2 where "B2 = A2\<lparr> blot := SDFBlot_update dt1 (blot A2) \<rparr>"
  have f1: "frame (dt1, t0 + 600 + d1, t1) P = Inr B2"
    by (simp add: frame_morph_done [OF P(2)] A2_def B2_def)
  have c2: "currentSequence B2 = Some (?V\<lparr> startTime := Some (Fin (real t1)) \<rparr>)"
    and q2: "animationQueue B2 = [?B]"
    by (simp_all add: B2_def A2_def P(3) playNextAnimation_def)
  have b2: "morphFactor (blot B2) = Fin 0.9" "targetMorphFactor (blot B2) = Fin 0"
    "blot_x (blot B2) = Fin 100" "targetX (blot B2) = Fin 100"
    "blot_y (blot B2) = Fin 100" "targetY (blot B2) = Fin 100"
    using P(4-8) by (simp_all add: B2_def A2_def P(3) playNextAnimation_def SDFBlot_update_def Let_def)
  have c2': "currentSequence B2 =
             Some \<lparr> stype = move [(Fin 100, Fin 100), (Fin 300, Fin 300)], duration = Some (Fin 800),
                    easing = Some ''easeInOut'', startTime = Some (Fin (real t1)), continuous_flag = False,
                    priority = 9 \<rparr>"
    using c2 by simp
  from move_phase [OF c2' mid b2] obtain Q x' y' tx' ty' where
    Q: "frames mid B2 = Inr Q" "currentSequence Q = currentSequence B2" "animationQueue Q = [?B]"
       "morphFactor (blot Q) = Fin (0.9 * 0.9 ^ length mid)"
       "targetMorphFactor (blot Q) = Fin 0"
       "blot_x (blot Q) = Fin x'" "blot_y (blot Q) = Fin y'"
       "targetX (blot Q) = Fin tx'" "targetY (blot Q) = Fin ty'"
    unfolding q2 by blast
  have cq: "currentSequence Q =
             Some \<lparr> stype = move [(Fin 100, Fin 100), (Fin 300, Fin 300)], duration = Some (Fin 800),
                    easing = Some ''easeInOut'', startTime = Some (Fin (real t1)), continuous_flag = False,
                    priority = 9 \<rparr>"
    using Q(2) c2' by simp
  define A3 where "A3 = playNextAnimation t2
       (Q\<lparr> blot := (blot Q)\<lparr> targetX := Fin 300, targetY := Fin 300 \<rparr>, currentSequence := None \<rparr>)"
  define B3 where "B3 = A3\<lparr> blot := SDFBlot_update dt2 (blot A3) \<rparr>"
  have f2: "frame (dt2, t1 + 800 + d2, t2) Q = Inr B3"
    by (simp add: frame_move_done [OF cq] A3_def B3_def)
  let ?b = "?B\<lparr> startTime := Some (Fin (real t2)) \<rparr>"
  have c3: "currentSequence B3 = Some ?b"
    by (simp add: B3_def A3_def Q(3) playNextAnimation_def)
  have b3: "morphFactor (blot B3) = Fin (0.9 * 0.9 ^ length mid * 0.9)" "targetMorphFactor (blot B3) = Fin 0"
    "blot_x (blot B3) = Fin (x' + (300 - x') * 0.08)" "targetX (blot B3) = Fin 300"
    "blot_y (blot B3) = Fin (y' + (300 - y') * 0.08)" "targetY (blot B3) = Fin 300"
    using Q(4-7)
    by (simp_all add: B3_def A3_def Q(3) playNextAnimation_def SDFBlot_update_def Let_def algebra_simps)
  have sb: "stype ?b = breathing (Fin 0.03) (Fin 0.6)" "easing ?b = None" "continuous_flag ?b"
    by simp_all
  from frames_breathing_decay [OF c3 sb b3, of fs] obtain this' where
    t: "frames fs B3 = Inr this'"
       "morphFactor (blot this') = Fin (0.9 * 0.9 ^ length mid * 0.9 * 0.9 ^ length fs)"
       "targetMorphFactor (blot this') = Fin 0"
       "blot_x (blot this') = Fin (300 - (300 - (x' + (300 - x') * 0.08)) * 0.92 ^ length fs)"
       "targetX (blot this') = Fin 300"
       "blot_y (blot this') = Fin (300 - (300 - (y' + (300 - y') * 0.08)) * 0.92 ^ length fs)"
       "targetY (blot this') = Fin 300"
    by blast
  have frames_append: "\<And>xs ys A B. frames xs A = Inr B \<Longrightarrow> frames (xs @ ys) A = frames ys B"
  proof -
    fix xs ys :: "(jsnum \<times> nat \<times> nat) list" and A B
    show "frames xs A = Inr B \<Longrightarrow> frames (xs @ ys) A = frames ys B"
      by (induction xs arbitrary: A) (auto split: sum.splits)
  qed
  have "frames (mid @ (dt2, t1 + 800 + d2, t2) # fs) B2 = Inr this'"
    using frames_append [OF Q(1)] f2 t(1) by simp
  then have "frames ((dt1, t0 + 600 + d1, t1) # mid @ (dt2, t1 + 800 + d2, t2) # fs) P = Inr this'"
    using f1 by simp
  then have run: "frames (pre @ (dt1, t0 + 600 + d1, t1) # mid @ (dt2, t1 + 800 + d2, t2) # fs) ?A1 = Inr this'"
    using frames_append [OF P(1)] by simp
  have m: "(0.9::real) * 0.9 ^ length mid * 0.9 * 0.9 ^ length fs = 0.9 ^ (length mid + length fs + 2)"
    by (simp add: power_add power2_eq_square)
  have "(0.9::real) ^ (length mid + length fs) \<le> 1" by (simp add: power_le_one)
  then have "(0.9::real) ^ (length mid + length fs) * 0.81 \<le> 0.81" by simp
  then have le: "(0.9::real) ^ (length mid + length fs + 2) \<le> 0.81"
    by (simp add: power_add power2_eq_square)
  have mf: "morphFactor (blot this') = Fin (0.9 ^ (length mid + length fs + 2))"
    unfolding t(2) m ..
  have mle: "morphFactor (blot this') \<le> Fin 0.81"
    unfolding mf using le by simp
  from run t(3) mf mle t(5) t(7) t(4) t(6) show ?thesis by blast
qed


theorem transition_menuExpanded_morph_decays_witness:
  "\<exists>this'.
     frames [(Fin 16, 1016, 1016), (Fin 16, 1600, 1600), (Fin 16, 1616, 1616),
             (Fin 16, 2400, 2400), (Fin 16, 2416, 2416)]
       (transitionToState \<lparr> innerWidth = 1920, innerHeight = 1080 \<rparr> 0.7 1000 ''menuExpanded''
          (Some (Fin 300)) (Some (Fin 300)) (Fin 0) (Fin 0)
          (BlotAnimator_new (SDFBlot_new 300 150 (Fin 100) (Fin 100)))) = Inr this' \<and>
     targetMorphFactor (blot this') = Fin 0 \<and>
     morphFactor (blot this') = Fin 0.6561"
proof -
  let ?A = "transitionToState \<lparr> innerWidth = 1920, innerHeight = 1080 \<rparr> 0.7 1000 ''menuExpanded''
          (Some (Fin 300)) (Some (Fin 300)) (Fin 0) (Fin 0)
          (BlotAnimator_new (SDFBlot_new 300 150 (Fin 100) (Fin 100)))"
  have pre: "\<forall>f\<in>set [(Fin 16, 1016::nat, 1016::nat)]. fst (snd f) < 1000 + 600" by simp
  have mid: "\<forall>f\<in>set [(Fin 16, 1616::nat, 1616::nat)]. fst (snd f) < 1600 + 800" by simp
  have l: "[(Fin 16, 1016, 1016)] @ (Fin 16, 1000 + 600 + 0, 1600) #
             [(Fin 16, 1616, 1616)] @ (Fin 16, 1600 + 800 + 0, 2400) # [(Fin 16, 2416, 2416)]
           = [(Fin 16, 1016::nat, 1016::nat), (Fin 16, 1600, 1600), (Fin 16, 1616, 1616),
              (Fin 16, 2400, 2400), (Fin 16, 2416, 2416)]"
    by simp
  have e: "(0.9::real) ^ (length [(Fin 16, 1616::nat, 1616::nat)] + length [(Fin 16, 2416::nat, 2416::nat)] + 2)
           = 0.6561"
    by (simp add: power4_eq_xxxx)
  from transition_menuExpanded_morph_decays [OF pre mid,
      where ?dt1.0 = "Fin 16" and ?d1.0 = 0 and ?dt2.0 = "Fin 16" and ?d2.0 = 0 and ?t2.0 = 2400
        and fs = "[(Fin 16, 2416, 2416)]"
        and win = "\<lparr> innerWidth = 1920, innerHeight = 1080 \<rparr>" and rnd = "0.7"
        and w = 300 and h = 150]
  show ?thesis unfolding l e by blast
qed

end
